theory Spec2Isabelle
  imports Main "HOL-Library.Sublist"
begin

section \<open>JavaScript strings\<close>

text \<open>
  Strings of the hook are modelled as \<^typ>\<open>string\<close>. The string methods the hook calls
  (\<^verbatim>\<open>split\<close> with a one-character separator, \<^verbatim>\<open>startsWith\<close>, \<^verbatim>\<open>substring\<close> with one
  argument, \<^verbatim>\<open>includes\<close>, \<^verbatim>\<open>toLowerCase\<close>) are written out as list functions.
  \<^verbatim>\<open>toLowerCase\<close> is modelled on the ASCII letters; no property below depends on what
  lower-casing does to a character.
\<close>

fun split_on :: "char \<Rightarrow> string \<Rightarrow> string list" where
  "split_on c [] = [[]]"
| "split_on c (x # xs) =
     (if x = c then [] # split_on c xs
      else (case split_on c xs of
              [] \<Rightarrow> [[x]]
            | seg # segs \<Rightarrow> (x # seg) # segs))"

definition pop_last :: "string list \<Rightarrow> string option" where
  "pop_last segs = (case segs of [] \<Rightarrow> None | _ \<Rightarrow> Some (last segs))"

definition startsWith :: "string \<Rightarrow> string \<Rightarrow> bool" where
  "startsWith s p = (take (length p) s = p)"

definition substring_from :: "string \<Rightarrow> nat \<Rightarrow> string" where
  "substring_from s n = drop n s"

fun includes_str :: "string \<Rightarrow> string \<Rightarrow> bool" where
  "includes_str [] q = (q = [])"
| "includes_str (x # xs) q = (startsWith (x # xs) q \<or> includes_str xs q)"

definition lower_char :: "char \<Rightarrow> char" where
  "lower_char c =
     (case map_of (zip ''ABCDEFGHIJKLMNOPQRSTUVWXYZ'' ''abcdefghijklmnopqrstuvwxyz'') c of
        None \<Rightarrow> c
      | Some l \<Rightarrow> l)"

definition toLowerCase :: "string \<Rightarrow> string" where
  "toLowerCase s = map lower_char s"

section \<open>File-type predicates\<close>

definition PREVIEWABLE_EXTENSIONS :: "string list" where
  "PREVIEWABLE_EXTENSIONS = [''pdf'', ''png'', ''jpg'', ''jpeg'', ''gif'', ''webp'', ''svg'']"

definition IMAGE_EXTENSIONS :: "string list" where
  "IMAGE_EXTENSIONS = [''png'', ''jpg'', ''jpeg'', ''gif'', ''webp'', ''svg'']"

definition getFileExtension :: "string \<Rightarrow> string" where
  "getFileExtension name =
     toLowerCase (case pop_last (split_on CHR ''.'' name) of
                    None \<Rightarrow> ''''
                  | Some seg \<Rightarrow> (if seg = [] then '''' else seg))"

definition isPreviewable :: "string \<Rightarrow> bool" where
  "isPreviewable name = (getFileExtension name \<in> set PREVIEWABLE_EXTENSIONS)"

definition isImage :: "string \<Rightarrow> bool" where
  "isImage name = (getFileExtension name \<in> set IMAGE_EXTENSIONS)"

definition isPdf :: "string \<Rightarrow> bool" where
  "isPdf name = (getFileExtension name = ''pdf'')"

section \<open>JavaScript values\<close>

text \<open>
  A caught failure (\<^verbatim>\<open>err: unknown\<close>) and the loosely typed fields of a listing entry are
  JavaScript values. The fragment modelled here: the primitives \<^verbatim>\<open>undefined\<close>, \<^verbatim>\<open>null\<close>,
  booleans, integer-valued numbers and strings, and objects whose own properties hold
  primitives. The flag of \<open>Obj\<close> says whether the object is an \<^verbatim>\<open>instanceof Error\<close>.
\<close>

datatype prim = PUndefined | PNull | PBool bool | PNum int | PStr string

datatype jsval = Prim prim | Obj bool "(string \<times> prim) list"

definition digit_char :: "nat \<Rightarrow> char" where
  "digit_char d = ''0123456789'' ! d"

function show_nat :: "nat \<Rightarrow> string" where
  "show_nat n = (if n < 10 then [digit_char n] else show_nat (n div 10) @ [digit_char (n mod 10)])"
  by pat_completeness auto
termination
  by (relation "measure (\<lambda>n. n)") auto

declare show_nat.simps [simp del]

definition show_int :: "int \<Rightarrow> string" where
  "show_int i = (if i < 0 then CHR ''-'' # show_nat (nat (- i)) else show_nat (nat i))"

fun truthy_prim :: "prim \<Rightarrow> bool" where
  "truthy_prim PUndefined = False"
| "truthy_prim PNull = False"
| "truthy_prim (PBool b) = b"
| "truthy_prim (PNum n) = (n \<noteq> 0)"
| "truthy_prim (PStr s) = (s \<noteq> [])"

fun truthy :: "jsval \<Rightarrow> bool" where
  "truthy (Prim p) = truthy_prim p"
| "truthy (Obj is_error fs) = True"

text \<open>
  \<^verbatim>\<open>String(v)\<close> and the coercion of a template literal, on primitives. A number is an
  integer and is printed with all its digits (the code prints in exponent form from \<open>1e21\<close>).
\<close>

fun js_String :: "prim \<Rightarrow> string" where
  "js_String PUndefined = ''undefined''"
| "js_String PNull = ''null''"
| "js_String (PBool b) = (if b then ''true'' else ''false'')"
| "js_String (PNum n) = show_int n"
| "js_String (PStr s) = s"

definition field :: "(string \<times> prim) list \<Rightarrow> string \<Rightarrow> prim" where
  "field fs k = (case map_of fs k of None \<Rightarrow> PUndefined | Some v \<Rightarrow> v)"

definition is_number :: "prim \<Rightarrow> bool" where
  "is_number v = (case v of PNum n \<Rightarrow> True | _ \<Rightarrow> False)"

definition is_string :: "prim \<Rightarrow> bool" where
  "is_string v = (case v of PStr s \<Rightarrow> True | _ \<Rightarrow> False)"

section \<open>Error helpers\<close>

definition WORKLOAD_AUTH_ERROR_MESSAGES :: "(int \<times> string) list" where
  "WORKLOAD_AUTH_ERROR_MESSAGES =
     [(0, ''Authentication is not supported in this environment. Open this workload through the Fabric portal (https://app.fabric.microsoft.com) instead of localhost.''),
      (1, ''User interaction failed during authentication. Please try again.''),
      (2, ''Workload authentication configuration error. Verify that your Entra App registration (FRONTEND_APPID) and redirect URIs are configured correctly.'')]"

text \<open>
  The test \<^verbatim>\<open>typeof obj.error === "number" && obj.error in WORKLOAD_AUTH_ERROR_MESSAGES\<close>
  and the entry of the table it selects.
\<close>

definition authErrorMessage :: "prim \<Rightarrow> string option" where
  "authErrorMessage v = (case v of PNum n \<Rightarrow> map_of WORKLOAD_AUTH_ERROR_MESSAGES n | _ \<Rightarrow> None)"

text \<open>
  \<^verbatim>\<open>getErrorMessage\<close>. The message of an \<^verbatim>\<open>Error\<close> is a string by its type.
  \<^verbatim>\<open>JSON.stringify\<close>, reached only on the last line, is the parameter \<open>stringify\<close>.
\<close>

definition getErrorMessage :: "(jsval \<Rightarrow> string) \<Rightarrow> jsval \<Rightarrow> string" where
  "getErrorMessage stringify err =
     (if \<not> truthy err then ''Unknown error''
      else case err of
        Obj is_error fs \<Rightarrow>
          (if is_error \<and> truthy_prim (field fs ''message'') then js_String (field fs ''message'')
           else case authErrorMessage (field fs ''error'') of
             Some m \<Rightarrow> m
           | None \<Rightarrow>
               if is_string (field fs ''error'') then js_String (field fs ''error'')
               else if is_string (field fs ''message'') then js_String (field fs ''message'')
               else if is_number (field fs ''statusCode'')
                 then ''HTTP '' @ js_String (field fs ''statusCode'') @ '': ''
                      @ (if truthy_prim (field fs ''statusText'')
                         then js_String (field fs ''statusText'') else ''Request failed'')
               else stringify err)
      | Prim (PStr s) \<Rightarrow> s
      | Prim p \<Rightarrow> stringify err)"

section \<open>Types of the hook\<close>

record OneLakeFile =
  fullPath :: string
  name :: string
  relativePath :: string
  size_bytes :: int
  lastModified :: string
  lakehouseName :: string
  lakehouseId :: string

record FilePreview =
  pv_file :: OneLakeFile
  blobUrl :: "string option"
  pv_loading :: bool
  pv_error :: "string option"

record OneLakeFileBrowserState =
  files :: "OneLakeFile list"
  selectedFile :: "FilePreview option"
  loading :: bool
  error :: "string option"
  workspaceId :: "string option"
  searchQuery :: string

definition initial_state :: OneLakeFileBrowserState where
  "initial_state =
     \<lparr>files = [], selectedFile = None, loading = False, error = None,
      workspaceId = None, searchQuery = []\<rparr>"

section \<open>External collaborators\<close>

text \<open>
  What the clients answer. A call that rejects is \<open>Inl\<close> of the thrown value. The records
  hold the fields the hook reads.
\<close>

record ItemInfo =
  info_workspaceId :: "string option"

record GetItemResult =
  result_item :: "ItemInfo option"

record Workspace =
  ws_id :: string

record Item =
  item_id :: string
  item_displayName :: string
  item_type :: string

record PathEntry =
  p_name :: string
  p_isDirectory :: prim
  p_contentLength :: prim
  p_lastModified :: "string option"

record PathMetadata =
  paths :: "PathEntry list option"

text \<open>
  The environment of one run of the hook: whether \<^verbatim>\<open>clientRef.current\<close> is set, the answers
  of the workload client and of the platform client, and the functions whose code is not
  part of the hook: \<^verbatim>\<open>OneLakeStorageClient.getPath\<close> (imported from the clients directory),
  the conversion of a string to a number inside \<^verbatim>\<open>Number(...)\<close> (\<open>None\<close> is \<^verbatim>\<open>NaN\<close>),
  \<^verbatim>\<open>JSON.stringify\<close> and \<^verbatim>\<open>atob\<close> (which throws on malformed input). An answer depends
  on the arguments of the call only.
\<close>

record env =
  clientReady :: bool
  getItem :: "string \<Rightarrow> jsval + GetItemResult option"
  getAllWorkspaces :: "jsval + Workspace list"
  getAllItems :: "string \<Rightarrow> jsval + Item list"
  getPathMetadata :: "string \<Rightarrow> string \<Rightarrow> bool \<Rightarrow> bool \<Rightarrow> jsval + PathMetadata"
  readFileAsBase64 :: "string \<Rightarrow> jsval + string"
  getPath :: "string \<Rightarrow> string \<Rightarrow> string \<Rightarrow> string"
  stringToNumber :: "string \<Rightarrow> int option"
  JSON_stringify :: "jsval \<Rightarrow> string"
  atob :: "string \<Rightarrow> jsval + string"

datatype log_event = Warn string jsval | ErrorLog string jsval

fun js_Number :: "(string \<Rightarrow> int option) \<Rightarrow> prim \<Rightarrow> int option" where
  "js_Number parse PUndefined = None"
| "js_Number parse PNull = Some 0"
| "js_Number parse (PBool b) = Some (if b then 1 else 0)"
| "js_Number parse (PNum n) = Some n"
| "js_Number parse (PStr s) = parse s"

section \<open>Loading the catalog\<close>

text \<open>Step 1 of \<^verbatim>\<open>loadFiles\<close>: the workspace id from the item, then the fallback.\<close>

definition workspaceFromItem :: "env \<Rightarrow> string option \<Rightarrow> string option \<times> log_event list" where
  "workspaceFromItem E itemObjectId =
     (case itemObjectId of
        None \<Rightarrow> (None, [])
      | Some itemId \<Rightarrow>
          if itemId = [] then (None, [])
          else (case getItem E itemId of
                  Inl e \<Rightarrow> (None, [Warn ''Could not resolve workspace from item:'' e])
                | Inr itemResult \<Rightarrow>
                    (case itemResult of
                       None \<Rightarrow> (None, [])
                     | Some r \<Rightarrow>
                         (case result_item r of
                            None \<Rightarrow> (None, [])
                          | Some i \<Rightarrow>
                              (case info_workspaceId i of
                                 None \<Rightarrow> (None, [])
                               | Some w \<Rightarrow> (if w = [] then (None, []) else (Some w, [])))))))"

definition resolveWorkspace ::
  "env \<Rightarrow> string option \<Rightarrow> (jsval + string option) \<times> log_event list" where
  "resolveWorkspace E itemObjectId =
     (case workspaceFromItem E itemObjectId of
        (Some w, lg) \<Rightarrow> (Inr (Some w), lg)
      | (None, lg) \<Rightarrow>
          (case getAllWorkspaces E of
             Inl e \<Rightarrow> (Inl e, lg)
           | Inr workspaces \<Rightarrow>
               (case workspaces of
                  [] \<Rightarrow> (Inr None, lg)
                | w # rest \<Rightarrow> (Inr (Some (ws_id w)), lg))))"

text \<open>The body of the inner loop for an entry that is not skipped.\<close>

definition relativePathOf :: "Item \<Rightarrow> PathEntry \<Rightarrow> string" where
  "relativePathOf lakehouse p =
     (let filesPrefix = item_id lakehouse @ ''/Files/''
      in if startsWith (p_name p) filesPrefix
         then substring_from (p_name p) (length filesPrefix)
         else p_name p)"

definition fileNameOf :: "string \<Rightarrow> string" where
  "fileNameOf relPath =
     (case pop_last (split_on CHR ''/'' relPath) of
        None \<Rightarrow> relPath
      | Some seg \<Rightarrow> (if seg = [] then relPath else seg))"

text \<open>The third argument of \<^verbatim>\<open>getPath\<close>: the part of the entry name after \<open>{lakehouse id}/\<close>.\<close>

definition pathInItem :: "Item \<Rightarrow> PathEntry \<Rightarrow> string" where
  "pathInItem lakehouse p =
     (if startsWith (p_name p) (item_id lakehouse @ ''/'')
      then substring_from (p_name p) (length (item_id lakehouse) + 1)
      else p_name p)"

definition makeFile :: "env \<Rightarrow> string \<Rightarrow> Item \<Rightarrow> PathEntry \<Rightarrow> OneLakeFile" where
  "makeFile E ws lakehouse p =
     (let fullPath' = getPath E ws (item_id lakehouse) (pathInItem lakehouse p);
          relativePath' = relativePathOf lakehouse p;
          fileName = fileNameOf relativePath'
      in \<lparr>fullPath = fullPath',
          name = fileName,
          relativePath = relativePath',
          size_bytes = (case js_Number (stringToNumber E) (p_contentLength p) of
                          None \<Rightarrow> 0 | Some n \<Rightarrow> n),
          lastModified = (case p_lastModified p of
                            None \<Rightarrow> [] | Some t \<Rightarrow> t),
          lakehouseName = item_displayName lakehouse,
          lakehouseId = item_id lakehouse\<rparr>)"

definition isDirectoryEntry :: "PathEntry \<Rightarrow> bool" where
  "isDirectoryEntry p = (js_String (p_isDirectory p) = ''true'')"

text \<open>The inner loop: \<open>allFiles\<close> is the array the loop pushes to.\<close>

fun scanPaths :: "env \<Rightarrow> string \<Rightarrow> Item \<Rightarrow> PathEntry list \<Rightarrow> OneLakeFile list \<Rightarrow> OneLakeFile list" where
  "scanPaths E ws lakehouse [] allFiles = allFiles"
| "scanPaths E ws lakehouse (p # ps) allFiles =
     (if isDirectoryEntry p then scanPaths E ws lakehouse ps allFiles
      else scanPaths E ws lakehouse ps (allFiles @ [makeFile E ws lakehouse p]))"

text \<open>The outer loop, with its \<^verbatim>\<open>try\<close> around each lakehouse.\<close>

definition listingWarning :: "Item \<Rightarrow> string" where
  "listingWarning lakehouse =
     ''Failed to list files in Lakehouse '' @ [CHR 0x22] @ item_displayName lakehouse
       @ [CHR 0x22] @ '':''"

fun scanLakehouses ::
  "env \<Rightarrow> string \<Rightarrow> Item list \<Rightarrow> OneLakeFile list \<Rightarrow> log_event list \<Rightarrow> OneLakeFile list \<times> log_event list" where
  "scanLakehouses E ws [] allFiles lg = (allFiles, lg)"
| "scanLakehouses E ws (lakehouse # rest) allFiles lg =
     (case getPathMetadata E ws (item_id lakehouse @ ''/Files'') True False of
        Inl e \<Rightarrow>
          scanLakehouses E ws rest allFiles (lg @ [Warn (listingWarning lakehouse) e])
      | Inr metadata \<Rightarrow>
          scanLakehouses E ws rest
            (scanPaths E ws lakehouse (case paths metadata of None \<Rightarrow> [] | Some ps \<Rightarrow> ps) allFiles)
            lg)"

definition NO_WORKSPACE :: string where
  "NO_WORKSPACE = ''No workspace found. Please ensure you have access to a Fabric workspace.''"

definition NO_LAKEHOUSES :: string where
  "NO_LAKEHOUSES = ''No Lakehouses found in this workspace. Create a Lakehouse and upload files to see them here.''"

definition loadFailed ::
  "env \<Rightarrow> jsval \<Rightarrow> log_event list \<Rightarrow> OneLakeFileBrowserState \<Rightarrow> OneLakeFileBrowserState \<times> log_event list" where
  "loadFailed E err lg prev =
     (prev\<lparr>loading := False, error := Some (getErrorMessage (JSON_stringify E) err)\<rparr>,
      lg @ [ErrorLog ''Failed to load files:'' err])"

definition noWorkspace ::
  "log_event list \<Rightarrow> OneLakeFileBrowserState \<Rightarrow> OneLakeFileBrowserState \<times> log_event list" where
  "noWorkspace lg prev = (prev\<lparr>loading := False, error := Some NO_WORKSPACE\<rparr>, lg)"

text \<open>Steps 2 and 3, once \<open>ws\<close> is the workspace id.\<close>

definition loadFromWorkspace ::
  "env \<Rightarrow> string \<Rightarrow> log_event list \<Rightarrow> OneLakeFileBrowserState \<Rightarrow> OneLakeFileBrowserState \<times> log_event list" where
  "loadFromWorkspace E ws lg prev =
     (case getAllItems E ws of
        Inl err \<Rightarrow> loadFailed E err lg prev
      | Inr allItems \<Rightarrow>
          (let lakehouses = filter (\<lambda>i. item_type i = ''Lakehouse'') allItems
           in if lakehouses = []
              then (prev\<lparr>loading := False, workspaceId := Some ws, files := [],
                         error := Some NO_LAKEHOUSES\<rparr>, lg)
              else (case scanLakehouses E ws lakehouses [] lg of
                      (allFiles, lg') \<Rightarrow>
                        (prev\<lparr>files := allFiles, workspaceId := Some ws, loading := False\<rparr>, lg'))))"

text \<open>
  \<^verbatim>\<open>loadFiles\<close> calls \<^verbatim>\<open>setState\<close> twice, with its awaits in between, and each call
  updates the state current at that time. \<open>loadFiles_begin\<close> is the first update.
  \<open>loadFiles_settle\<close> is the rest of the build: from the answers of the clients it reaches
  one last \<^verbatim>\<open>setState\<close>, applied to \<open>prev\<close>, and gives the new state and what was written
  to the console.
\<close>

definition loadFiles_begin :: "OneLakeFileBrowserState \<Rightarrow> OneLakeFileBrowserState" where
  "loadFiles_begin prev = prev\<lparr>loading := True, error := None\<rparr>"

definition loadFiles_settle ::
  "env \<Rightarrow> string option \<Rightarrow> OneLakeFileBrowserState \<Rightarrow> OneLakeFileBrowserState \<times> log_event list" where
  "loadFiles_settle E itemObjectId prev =
     (case resolveWorkspace E itemObjectId of
        (Inl err, lg) \<Rightarrow> loadFailed E err lg prev
      | (Inr None, lg) \<Rightarrow> noWorkspace lg prev
      | (Inr (Some ws), lg) \<Rightarrow>
          (if ws = [] then noWorkspace lg prev
           else loadFromWorkspace E ws lg prev))"

text \<open>
  A build that runs from state \<open>st\<close> with no other update of the state between its two
  updates. Without a client the build returns at once.
\<close>

definition loadFiles ::
  "env \<Rightarrow> string option \<Rightarrow> OneLakeFileBrowserState \<Rightarrow> OneLakeFileBrowserState \<times> log_event list" where
  "loadFiles E itemObjectId st =
     (if \<not> clientReady E then (st, [])
      else loadFiles_settle E itemObjectId (loadFiles_begin st))"

section \<open>File selection and preview\<close>

text \<open>
  The browser's object URLs are part of the state of the world: \<open>objectURLs\<close> holds the
  URLs that \<^verbatim>\<open>URL.createObjectURL\<close> has handed out and that have not been revoked, with
  their blobs; \<open>revoked\<close> lists the calls of \<^verbatim>\<open>URL.revokeObjectURL\<close> in order; \<open>console\<close> is
  what was logged. The URL that \<^verbatim>\<open>createObjectURL\<close> returns is chosen by the browser and is
  an argument of the step that calls it.
\<close>

record Blob =
  blob_bytes :: "nat list"
  blob_type :: string

record world =
  view :: OneLakeFileBrowserState
  objectURLs :: "(string \<times> Blob) list"
  revoked :: "string list"
  console :: "log_event list"

definition revokeObjectURL :: "string \<Rightarrow> world \<Rightarrow> world" where
  "revokeObjectURL url w =
     w\<lparr>objectURLs := filter (\<lambda>ub. fst ub \<noteq> url) (objectURLs w),
       revoked := revoked w @ [url]\<rparr>"

definition createObjectURL :: "string \<Rightarrow> Blob \<Rightarrow> world \<Rightarrow> world" where
  "createObjectURL url blob w = w\<lparr>objectURLs := objectURLs w @ [(url, blob)]\<rparr>"

text \<open>
  \<^verbatim>\<open>getMimeType\<close>. The table is read by its own keys: the extensions \<open>constructor\<close> and
  \<open>__proto__\<close>, for which the code finds an inherited property of the object literal, are
  outside the model.
\<close>

definition MIME_TYPES :: "(string \<times> string) list" where
  "MIME_TYPES =
     [(''pdf'', ''application/pdf''), (''png'', ''image/png''), (''jpg'', ''image/jpeg''),
      (''jpeg'', ''image/jpeg''), (''gif'', ''image/gif''), (''webp'', ''image/webp''),
      (''svg'', ''image/svg+xml''), (''txt'', ''text/plain''), (''json'', ''application/json''),
      (''csv'', ''text/csv'')]"

definition getMimeType :: "string \<Rightarrow> string" where
  "getMimeType nm =
     (case map_of MIME_TYPES (getFileExtension nm) of
        None \<Rightarrow> ''application/octet-stream''
      | Some t \<Rightarrow> t)"

text \<open>
  The test \<^verbatim>\<open>if (s.selectedFile?.blobUrl)\<close> followed by the revocation, as the three places
  of the hook write it; \<open>s\<close> is the state the test reads.
\<close>

definition revokeBlobUrlOf :: "OneLakeFileBrowserState \<Rightarrow> world \<Rightarrow> world" where
  "revokeBlobUrlOf s w =
     (case selectedFile s of
        None \<Rightarrow> w
      | Some pv \<Rightarrow>
          (case blobUrl pv of
             None \<Rightarrow> w
           | Some url \<Rightarrow> (if url = [] then w else revokeObjectURL url w)))"

definition setSelectedFile :: "FilePreview option \<Rightarrow> world \<Rightarrow> world" where
  "setSelectedFile pv w = w\<lparr>view := (view w)\<lparr>selectedFile := pv\<rparr>\<rparr>"

text \<open>
  \<^verbatim>\<open>selectFile\<close> up to its \<^verbatim>\<open>await\<close>: the first \<^verbatim>\<open>setState\<close>, applied to the current
  state.
\<close>

definition selectFile_start :: "OneLakeFile \<Rightarrow> world \<Rightarrow> world" where
  "selectFile_start f w =
     setSelectedFile (Some \<lparr>pv_file = f, blobUrl = None, pv_loading = True, pv_error = None\<rparr>)
       (revokeBlobUrlOf (view w) w)"

text \<open>
  \<^verbatim>\<open>selectFile\<close> after its \<^verbatim>\<open>await\<close>, applied to the state current at that time; \<open>url\<close> is
  what \<^verbatim>\<open>createObjectURL\<close> returns if it is reached.
\<close>

definition selectFile_failed :: "env \<Rightarrow> OneLakeFile \<Rightarrow> jsval \<Rightarrow> world \<Rightarrow> world" where
  "selectFile_failed E f err w =
     setSelectedFile
       (Some \<lparr>pv_file = f, blobUrl = None, pv_loading = False,
              pv_error = Some (''Failed to load file: '' @ getErrorMessage (JSON_stringify E) err)\<rparr>)
       (w\<lparr>console := console w @ [ErrorLog ''Failed to load file:'' err]\<rparr>)"

definition selectFile_finish :: "env \<Rightarrow> OneLakeFile \<Rightarrow> string \<Rightarrow> world \<Rightarrow> world" where
  "selectFile_finish E f url w =
     (case readFileAsBase64 E (fullPath f) of
        Inl err \<Rightarrow> selectFile_failed E f err w
      | Inr base64 \<Rightarrow>
          (case atob E base64 of
             Inl err \<Rightarrow> selectFile_failed E f err w
           | Inr binaryStr \<Rightarrow>
               (let bytes = map (\<lambda>c. (of_char c :: nat)) binaryStr;
                    blob = \<lparr>blob_bytes = bytes, blob_type = getMimeType (name f)\<rparr>
                in setSelectedFile
                     (Some \<lparr>pv_file = f, blobUrl = Some url, pv_loading = False, pv_error = None\<rparr>)
                     (createObjectURL url blob w))))"

text \<open>A call of \<^verbatim>\<open>selectFile\<close> that runs to its end before anything else happens.\<close>

definition selectFile :: "env \<Rightarrow> OneLakeFile \<Rightarrow> string \<Rightarrow> world \<Rightarrow> world" where
  "selectFile E f url w =
     (if \<not> clientReady E then w else selectFile_finish E f url (selectFile_start f w))"

definition closePreview :: "world \<Rightarrow> world" where
  "closePreview w = setSelectedFile None (revokeBlobUrlOf (view w) w)"

definition downloadFile :: "OneLakeFileBrowserState \<Rightarrow> (string \<times> string) option" where
  "downloadFile s =
     (case selectedFile s of
        None \<Rightarrow> None
      | Some preview \<Rightarrow>
          (case blobUrl preview of
             None \<Rightarrow> None
           | Some url \<Rightarrow> (if url = [] then None else Some (url, name (pv_file preview)))))"

definition setSearchQuery :: "string \<Rightarrow> OneLakeFileBrowserState \<Rightarrow> OneLakeFileBrowserState" where
  "setSearchQuery query prev = prev\<lparr>searchQuery := query\<rparr>"

definition clearError :: "OneLakeFileBrowserState \<Rightarrow> OneLakeFileBrowserState" where
  "clearError prev = prev\<lparr>error := None\<rparr>"

text \<open>
  The cleanup on unmount. The effect that returns it has the dependency list \<^verbatim>\<open>[]\<close>, so it
  runs once, after the first render, and the function it returns reads the \<^verbatim>\<open>state\<close> of that
  render, which is the initial value given to \<^verbatim>\<open>useState\<close>. \<open>cleanupBlobUrl\<close> is the
  function with the state it reads as an argument; \<open>unmount\<close> is the call React makes.
\<close>

definition cleanupBlobUrl :: "OneLakeFileBrowserState \<Rightarrow> world \<Rightarrow> world" where
  "cleanupBlobUrl captured w = revokeBlobUrlOf captured w"

definition unmount :: "world \<Rightarrow> world" where
  "unmount w = cleanupBlobUrl initial_state w"

text \<open>The steps of the preview, to run them in any order.\<close>

datatype command =
    SelectStart OneLakeFile
  | SelectFinish OneLakeFile string
  | ClosePreview
  | SetSearchQuery string
  | Unmount

fun step :: "env \<Rightarrow> command \<Rightarrow> world \<Rightarrow> world" where
  "step E (SelectStart f) w = selectFile_start f w"
| "step E (SelectFinish f url) w = selectFile_finish E f url w"
| "step E ClosePreview w = closePreview w"
| "step E (SetSearchQuery q) w = w\<lparr>view := setSearchQuery q (view w)\<rparr>"
| "step E Unmount w = unmount w"

fun run :: "env \<Rightarrow> command list \<Rightarrow> world \<Rightarrow> world" where
  "run E [] w = w"
| "run E (c # cs) w = run E cs (step E c w)"

definition initial_world :: world where
  "initial_world = \<lparr>view = initial_state, objectURLs = [], revoked = [], console = []\<rparr>"

section \<open>Filtered files\<close>

definition filteredFiles :: "OneLakeFileBrowserState \<Rightarrow> OneLakeFile list" where
  "filteredFiles s =
     (if searchQuery s \<noteq> []
      then filter (\<lambda>f. includes_str (toLowerCase (name f)) (toLowerCase (searchQuery s))
                      \<or> includes_str (toLowerCase (lakehouseName f)) (toLowerCase (searchQuery s)))
             (files s)
      else files s)"

section \<open>Notions used in the statements\<close>

text \<open>The text after the last occurrence of a character.\<close>

definition after_last :: "char \<Rightarrow> string \<Rightarrow> string" where
  "after_last c s = rev (takeWhile (\<lambda>x. x \<noteq> c) (rev s))"

text \<open>
  What the two loops of \<^verbatim>\<open>loadFiles\<close> compute: the records that one lakehouse contributes,
  and the warning it contributes when its listing is refused.
\<close>

definition isLakehouse :: "Item \<Rightarrow> bool" where
  "isLakehouse i = (item_type i = ''Lakehouse'')"

definition entriesOf :: "PathMetadata \<Rightarrow> PathEntry list" where
  "entriesOf metadata = (case paths metadata of None \<Rightarrow> [] | Some ps \<Rightarrow> ps)"

definition listing :: "env \<Rightarrow> string \<Rightarrow> Item \<Rightarrow> jsval + PathMetadata" where
  "listing E ws lakehouse = getPathMetadata E ws (item_id lakehouse @ ''/Files'') True False"

definition filesOfLakehouse :: "env \<Rightarrow> string \<Rightarrow> Item \<Rightarrow> OneLakeFile list" where
  "filesOfLakehouse E ws lakehouse =
     (case listing E ws lakehouse of
        Inl e \<Rightarrow> []
      | Inr metadata \<Rightarrow>
          map (makeFile E ws lakehouse) (filter (\<lambda>p. \<not> isDirectoryEntry p) (entriesOf metadata)))"

definition warningsOfLakehouse :: "env \<Rightarrow> string \<Rightarrow> Item \<Rightarrow> log_event list" where
  "warningsOfLakehouse E ws lakehouse =
     (case listing E ws lakehouse of
        Inl e \<Rightarrow> [Warn (listingWarning lakehouse) e]
      | Inr metadata \<Rightarrow> [])"

text \<open>
  The URL held by the selected file, if any, and the condition that the live object URLs
  are exactly that one.
\<close>

definition previewUrl :: "OneLakeFileBrowserState \<Rightarrow> string list" where
  "previewUrl s =
     (case selectedFile s of
        None \<Rightarrow> []
      | Some pv \<Rightarrow> (case blobUrl pv of None \<Rightarrow> [] | Some url \<Rightarrow> [url]))"

definition tracked :: "world \<Rightarrow> bool" where
  "tracked w = (map fst (objectURLs w) = previewUrl (view w) \<and> [] \<notin> set (previewUrl (view w)))"

section \<open>Example inputs\<close>

text \<open>
  A workspace \<open>ws1\<close> found by the fallback, with the lakehouses \<open>A\<close> and \<open>B\<close> and a notebook.
  The listing of \<open>A\<close> is refused; that of \<open>B\<close> has a directory and a file under it.
\<close>

definition lakehouseA :: Item where
  "lakehouseA = \<lparr>item_id = ''A'', item_displayName = ''Sales'', item_type = ''Lakehouse''\<rparr>"

definition lakehouseB :: Item where
  "lakehouseB = \<lparr>item_id = ''B'', item_displayName = ''Docs'', item_type = ''Lakehouse''\<rparr>"

definition notebookN :: Item where
  "notebookN = \<lparr>item_id = ''N'', item_displayName = ''Notes'', item_type = ''Notebook''\<rparr>"

definition entry_sub :: PathEntry where
  "entry_sub =
     \<lparr>p_name = ''B/Files/sub'', p_isDirectory = PStr ''true'', p_contentLength = PUndefined,
      p_lastModified = None\<rparr>"

definition entry_doc :: PathEntry where
  "entry_doc =
     \<lparr>p_name = ''B/Files/sub/doc.pdf'', p_isDirectory = PUndefined, p_contentLength = PNum 12,
      p_lastModified = Some ''Mon, 01 Jan 2024 00:00:00 GMT''\<rparr>"

definition entry_slash :: PathEntry where
  "entry_slash =
     \<lparr>p_name = ''B/Files/sub/'', p_isDirectory = PUndefined, p_contentLength = PNum 0,
      p_lastModified = None\<rparr>"

definition entry_plain :: PathEntry where
  "entry_plain =
     \<lparr>p_name = ''readme.txt'', p_isDirectory = PBool False, p_contentLength = PNum 3,
      p_lastModified = None\<rparr>"

definition forbidden :: jsval where
  "forbidden = Obj False [(''statusCode'', PNum 403), (''statusText'', PStr ''Forbidden'')]"

definition example_env :: env where
  "example_env =
     \<lparr>clientReady = True,
      getItem = (\<lambda>itemId. Inl (Obj True [(''message'', PStr ''item not found'')])),
      getAllWorkspaces = Inr [\<lparr>ws_id = ''ws1''\<rparr>],
      getAllItems = (\<lambda>ws. Inr [lakehouseA, notebookN, lakehouseB]),
      getPathMetadata = (\<lambda>ws path recursive shallow.
         if path = ''B/Files'' then Inr \<lparr>paths = Some [entry_sub, entry_doc]\<rparr>
         else Inl forbidden),
      readFileAsBase64 = (\<lambda>path. Inr ''QQ==''),
      getPath = (\<lambda>ws itemId path. ws @ ''/'' @ itemId @ ''/'' @ path),
      stringToNumber = (\<lambda>s. None),
      JSON_stringify = (\<lambda>v. ''{}''),
      atob = (\<lambda>s. Inr ''A'')\<rparr>"

definition doc_file :: OneLakeFile where
  "doc_file =
     \<lparr>fullPath = ''ws1/B/Files/sub/doc.pdf'', name = ''doc.pdf'', relativePath = ''sub/doc.pdf'',
      size_bytes = 12, lastModified = ''Mon, 01 Jan 2024 00:00:00 GMT'',
      lakehouseName = ''Docs'', lakehouseId = ''B''\<rparr>"

definition logo_file :: OneLakeFile where
  "logo_file =
     \<lparr>fullPath = ''ws1/B/Files/logo.png'', name = ''logo.png'', relativePath = ''logo.png'',
      size_bytes = 7, lastModified = [], lakehouseName = ''Docs'', lakehouseId = ''B''\<rparr>"

definition loaded_state :: OneLakeFileBrowserState where
  "loaded_state = initial_state\<lparr>files := [doc_file, logo_file], workspaceId := Some ''ws1''\<rparr>"

definition network_down :: jsval where
  "network_down = Obj True [(''message'', PStr ''Network request failed'')]"

text \<open>The listing of \<open>B\<close> with the same entry twice.\<close>

definition duplicate_env :: env where
  "duplicate_env =
     example_env\<lparr>getPathMetadata := (\<lambda>ws path recursive shallow.
        if path = ''B/Files'' then Inr \<lparr>paths = Some [entry_doc, entry_doc]\<rparr>
        else Inl forbidden)\<rparr>"

text \<open>A preview of \<open>doc_file\<close> that is ready, with its object URL live.\<close>

definition ready_world :: world where
  "ready_world =
     \<lparr>view = initial_state
         \<lparr>selectedFile :=
            Some \<lparr>pv_file = doc_file, blobUrl = Some ''blob:1'', pv_loading = False,
                  pv_error = None\<rparr>\<rparr>,
      objectURLs = [(''blob:1'', \<lparr>blob_bytes = [65], blob_type = ''application/pdf''\<rparr>)],
      revoked = [],
      console = []\<rparr>"

text \<open>The same workspace when the call that lists its items throws.\<close>

definition failing_items_env :: env where
  "failing_items_env = example_env\<lparr>getAllItems := (\<lambda>ws. Inl network_down)\<rparr>"

text \<open>The same workspace when both listings succeed; \<open>A\<close> holds two files.\<close>

definition entry_a1 :: PathEntry where
  "entry_a1 =
     \<lparr>p_name = ''A/Files/a.txt'', p_isDirectory = PStr ''false'', p_contentLength = PNum 5,
      p_lastModified = None\<rparr>"

definition entry_a2 :: PathEntry where
  "entry_a2 =
     \<lparr>p_name = ''A/Files/sub/doc.pdf'', p_isDirectory = PBool False, p_contentLength = PNum 9,
      p_lastModified = None\<rparr>"

definition multi_env :: env where
  "multi_env =
     example_env\<lparr>getPathMetadata := (\<lambda>ws path recursive shallow.
        if path = ''A/Files'' then Inr \<lparr>paths = Some [entry_a1, entry_a2]\<rparr>
        else if path = ''B/Files'' then Inr \<lparr>paths = Some [entry_sub, entry_doc]\<rparr>
        else Inl forbidden)\<rparr>"

text \<open>A state that shows files and the error of an earlier build.\<close>

definition stale_state :: OneLakeFileBrowserState where
  "stale_state = loaded_state\<lparr>error := Some ''Previous failure''\<rparr>"

section \<open>Properties of the string functions\<close>

lemma takeWhile_rev_all: "c \<notin> set s \<Longrightarrow> takeWhile (\<lambda>x. x \<noteq> c) (rev s) = rev s"
  by (auto simp: takeWhile_eq_all_conv)

lemma after_last_no_sep: "c \<notin> set s \<Longrightarrow> after_last c s = s"
  by (simp add: after_last_def takeWhile_rev_all)

lemma after_last_append: "c \<notin> set t \<Longrightarrow> after_last c (s @ c # t) = t"
  by (simp add: after_last_def takeWhile_tail takeWhile_rev_all)

lemma split_on_not_Nil: "split_on c s \<noteq> []"
  by (induction s) (auto split: list.splits)

lemma split_on_no_sep: "c \<notin> set s \<Longrightarrow> split_on c s = [s]"
  by (induction s) auto

lemma split_on_sep_tail: "c \<in> set s \<Longrightarrow> tl (split_on c s) \<noteq> []"
  by (induction s) (auto split: list.splits simp: split_on_not_Nil)

text \<open>The last piece of a split is the text after the last separator.\<close>

lemma last_split_on: "last (split_on c s) = after_last c s"
proof (induction s)
  case Nil
  show ?case by (simp add: after_last_def)
next
  case (Cons x xs)
  show ?case
  proof (cases "x = c")
    case True
    with Cons show ?thesis
      by (simp add: split_on_not_Nil after_last_def takeWhile_tail)
  next
    case False
    note x_not_sep = this
    obtain seg segs where sp: "split_on c xs = seg # segs"
      using split_on_not_Nil [of c xs] by (cases "split_on c xs") auto
    show ?thesis
    proof (cases "c \<in> set xs")
      case True
      then have "segs \<noteq> []"
        using sp split_on_sep_tail [of c xs] by simp
      with Cons sp x_not_sep True show ?thesis
        by (simp add: after_last_def takeWhile_tail)
    next
      case False
      then have "split_on c xs = [xs]"
        by (rule split_on_no_sep)
      moreover have "after_last c (x # xs) = x # xs"
        using x_not_sep False by (intro after_last_no_sep) simp
      ultimately show ?thesis
        using x_not_sep by simp
    qed
  qed
qed

lemma pop_last_split_on: "pop_last (split_on c s) = Some (after_last c s)"
  using split_on_not_Nil [of c s] last_split_on [of c s]
  by (cases "split_on c s") (auto simp: pop_last_def)

lemma startsWith_prefix: "startsWith s p \<longleftrightarrow> prefix p s"
  by (metis startsWith_def prefix_def append_eq_conv_conj append_take_drop_id)

lemma includes_str_sublist: "includes_str s q \<longleftrightarrow> sublist q s"
proof (induction s)
  case Nil
  show ?case by simp
next
  case (Cons x xs)
  show ?case
    by (simp add: Cons startsWith_prefix sublist_Cons_right)
qed

section \<open>File-type predicates: properties\<close>

lemma getFileExtension_eq: "getFileExtension n = toLowerCase (after_last CHR ''.'' n)"
  by (simp add: getFileExtension_def pop_last_split_on)

text \<open>
  Claim C10. A name is previewable exactly when it is an image or a PDF: the previewable
  extensions are the image extensions and \<open>pdf\<close>. Each of the three predicates is a test on
  the lower-cased text after the last dot of the name, and for a name without a dot that
  text is the whole name.
\<close>

theorem isPreviewable_iff_image_or_pdf:
  "(isPreviewable n \<longleftrightarrow> isImage n \<or> isPdf n)
   \<and> set PREVIEWABLE_EXTENSIONS = set IMAGE_EXTENSIONS \<union> {''pdf''}
   \<and> isPreviewable n = (toLowerCase (after_last CHR ''.'' n) \<in> set PREVIEWABLE_EXTENSIONS)
   \<and> isImage n = (toLowerCase (after_last CHR ''.'' n) \<in> set IMAGE_EXTENSIONS)
   \<and> isPdf n = (toLowerCase (after_last CHR ''.'' n) = ''pdf'')
   \<and> (CHR ''.'' \<notin> set n \<longrightarrow> getFileExtension n = toLowerCase n)"
  unfolding isPreviewable_def isImage_def isPdf_def getFileExtension_eq
  by (auto simp: PREVIEWABLE_EXTENSIONS_def IMAGE_EXTENSIONS_def after_last_no_sep)

theorem isPreviewable_iff_image_or_pdf_witness:
  "CHR ''.'' \<notin> set ''PNG'' \<and> getFileExtension ''PNG'' = ''png''
   \<and> isPreviewable ''PNG'' \<and> isImage ''PNG'' \<and> \<not> isPdf ''PNG''"
proof -
  have nodot: "CHR ''.'' \<notin> set ''PNG''"
    by simp
  have low: "toLowerCase ''PNG'' = ''png''"
    by (simp add: toLowerCase_def lower_char_def)
  from isPreviewable_iff_image_or_pdf [of "''PNG''"] nodot low
  show ?thesis
    by (simp add: isImage_def isPdf_def IMAGE_EXTENSIONS_def)
qed

section \<open>Flattening: properties\<close>

lemma relativePathOf_stripped:
  "p_name p = item_id lh @ ''/Files/'' @ r \<Longrightarrow> relativePathOf lh p = r"
  by (simp add: relativePathOf_def startsWith_def substring_from_def)

lemma relativePathOf_other:
  "\<not> prefix (item_id lh @ ''/Files/'') (p_name p) \<Longrightarrow> relativePathOf lh p = p_name p"
  by (simp add: relativePathOf_def startsWith_prefix)

lemma fileNameOf_eq:
  "fileNameOf rel = (if after_last CHR ''/'' rel = [] then rel else after_last CHR ''/'' rel)"
  by (simp add: fileNameOf_def pop_last_split_on)

lemma makeFile_relativePath: "relativePath (makeFile E ws lh p) = relativePathOf lh p"
  by (simp add: makeFile_def Let_def)

lemma makeFile_name: "name (makeFile E ws lh p) = fileNameOf (relativePathOf lh p)"
  by (simp add: makeFile_def Let_def)

text \<open>
  An entry whose name ends with the separator and that is not flagged as a directory: the
  relative path \<open>sub/\<close> has a separator, its last piece is empty, and the name is the whole
  relative path.
\<close>

theorem name_not_final_segment_counterexample:
  "CHR ''/'' \<in> set (relativePath (makeFile example_env ''ws1'' lakehouseB entry_slash))
   \<and> name (makeFile example_env ''ws1'' lakehouseB entry_slash)
       \<noteq> last (split_on CHR ''/''
                 (relativePath (makeFile example_env ''ws1'' lakehouseB entry_slash)))"
  by (simp add: makeFile_relativePath makeFile_name relativePathOf_def fileNameOf_def
      pop_last_def lakehouseB_def entry_slash_def startsWith_def substring_from_def)

text \<open>
  Claim C5, amended. The relative path of a record is the name of the entry without the
  prefix \<open>{lakehouse id}/Files/\<close>, and the name of the entry itself when it does not start
  with that prefix. The name of the record is the text after the last \<open>/\<close> of the relative
  path when that text is not empty, and the whole relative path otherwise; so it is the
  relative path when that has no \<open>/\<close>. An entry \<open>{lakehouse id}/Files/sub/doc.pdf\<close> gives
  the relative path \<open>sub/doc.pdf\<close> and the name \<open>doc.pdf\<close>.
\<close>

theorem flattening_relativePath_and_name:
  "(p_name p = item_id lh @ ''/Files/'' @ r \<longrightarrow> relativePath (makeFile E ws lh p) = r)
   \<and> (\<not> prefix (item_id lh @ ''/Files/'') (p_name p) \<longrightarrow>
        relativePath (makeFile E ws lh p) = p_name p)
   \<and> name (makeFile E ws lh p) =
       (if after_last CHR ''/'' (relativePath (makeFile E ws lh p)) = []
        then relativePath (makeFile E ws lh p)
        else after_last CHR ''/'' (relativePath (makeFile E ws lh p)))
   \<and> (CHR ''/'' \<notin> set (relativePath (makeFile E ws lh p)) \<longrightarrow>
        name (makeFile E ws lh p) = relativePath (makeFile E ws lh p))
   \<and> (p_name p = item_id lh @ ''/Files/sub/doc.pdf'' \<longrightarrow>
        relativePath (makeFile E ws lh p) = ''sub/doc.pdf''
        \<and> name (makeFile E ws lh p) = ''doc.pdf'')"
proof -
  have ex: "after_last CHR ''/'' ''sub/doc.pdf'' = ''doc.pdf''"
    by (simp add: after_last_def)
  have a: "p_name p = item_id lh @ ''/Files/'' @ r \<longrightarrow> relativePath (makeFile E ws lh p) = r"
    by (simp add: makeFile_relativePath relativePathOf_stripped)
  have b: "\<not> prefix (item_id lh @ ''/Files/'') (p_name p) \<longrightarrow>
        relativePath (makeFile E ws lh p) = p_name p"
    by (simp add: makeFile_relativePath relativePathOf_other)
  have c: "name (makeFile E ws lh p) =
       (if after_last CHR ''/'' (relativePath (makeFile E ws lh p)) = []
        then relativePath (makeFile E ws lh p)
        else after_last CHR ''/'' (relativePath (makeFile E ws lh p)))"
    by (simp add: makeFile_relativePath makeFile_name fileNameOf_eq)
  have d: "CHR ''/'' \<notin> set (relativePath (makeFile E ws lh p)) \<longrightarrow>
        name (makeFile E ws lh p) = relativePath (makeFile E ws lh p)"
    by (simp add: makeFile_relativePath makeFile_name fileNameOf_eq after_last_no_sep)
  have e: "p_name p = item_id lh @ ''/Files/sub/doc.pdf'' \<longrightarrow>
        relativePath (makeFile E ws lh p) = ''sub/doc.pdf''
        \<and> name (makeFile E ws lh p) = ''doc.pdf''"
    using relativePathOf_stripped [of p lh "''sub/doc.pdf''"] ex
    by (simp add: makeFile_relativePath makeFile_name fileNameOf_eq)
  from a b c d e show ?thesis by blast
qed

theorem flattening_relativePath_and_name_witness:
  "p_name entry_doc = item_id lakehouseB @ ''/Files/sub/doc.pdf''
   \<and> relativePath (makeFile example_env ''ws1'' lakehouseB entry_doc) = ''sub/doc.pdf''
   \<and> name (makeFile example_env ''ws1'' lakehouseB entry_doc) = ''doc.pdf''
   \<and> \<not> prefix (item_id lakehouseB @ ''/Files/'') (p_name entry_plain)
   \<and> relativePath (makeFile example_env ''ws1'' lakehouseB entry_plain) = ''readme.txt''
   \<and> CHR ''/'' \<notin> set (relativePath (makeFile example_env ''ws1'' lakehouseB entry_plain))
   \<and> name (makeFile example_env ''ws1'' lakehouseB entry_plain) = ''readme.txt''"
proof -
  have h: "p_name entry_doc = item_id lakehouseB @ ''/Files/sub/doc.pdf''"
    by (simp add: entry_doc_def lakehouseB_def)
  with flattening_relativePath_and_name [of entry_doc lakehouseB "''sub/doc.pdf''" example_env "''ws1''"]
  have doc: "relativePath (makeFile example_env ''ws1'' lakehouseB entry_doc) = ''sub/doc.pdf''
      \<and> name (makeFile example_env ''ws1'' lakehouseB entry_doc) = ''doc.pdf''"
    by blast
  have n: "p_name entry_plain = ''readme.txt''"
    by (simp add: entry_plain_def)
  have np: "\<not> prefix (item_id lakehouseB @ ''/Files/'') (p_name entry_plain)"
    by (simp add: entry_plain_def lakehouseB_def)
  with flattening_relativePath_and_name [of entry_plain lakehouseB _ example_env "''ws1''"]
  have rel: "relativePath (makeFile example_env ''ws1'' lakehouseB entry_plain) = p_name entry_plain"
    by blast
  then have ns: "CHR ''/'' \<notin> set (relativePath (makeFile example_env ''ws1'' lakehouseB entry_plain))"
    by (simp add: n)
  with flattening_relativePath_and_name [of entry_plain lakehouseB _ example_env "''ws1''"]
  have "name (makeFile example_env ''ws1'' lakehouseB entry_plain)
      = relativePath (makeFile example_env ''ws1'' lakehouseB entry_plain)"
    by blast
  with h doc np rel ns n show ?thesis
    by simp
qed

section \<open>Filtered files: properties\<close>

text \<open>
  Claim C9. The filtered files are the files themselves when the search query is empty, and
  otherwise the files, in their order, whose name or lakehouse name, in lower case, contains
  the query in lower case. Setting the query to the empty string after any query gives back
  exactly the files. Setting the query changes neither the files nor the selected file, and
  touches no object URL.
\<close>

theorem filteredFiles_semantics:
  "filteredFiles s =
     (if searchQuery s = [] then files s
      else filter (\<lambda>f. sublist (toLowerCase (searchQuery s)) (toLowerCase (name f))
                      \<or> sublist (toLowerCase (searchQuery s)) (toLowerCase (lakehouseName f)))
             (files s))
   \<and> subseq (filteredFiles s) (files s)
   \<and> filteredFiles (setSearchQuery [] (setSearchQuery q s)) = files s
   \<and> files (setSearchQuery q s) = files s
   \<and> selectedFile (setSearchQuery q s) = selectedFile s
   \<and> objectURLs (step E (SetSearchQuery q) w) = objectURLs w
   \<and> revoked (step E (SetSearchQuery q) w) = revoked w"
  by (simp add: filteredFiles_def setSearchQuery_def includes_str_sublist)

theorem filteredFiles_semantics_witness:
  "searchQuery (setSearchQuery ''PDF'' loaded_state) \<noteq> []
   \<and> filteredFiles (setSearchQuery ''PDF'' loaded_state) = [doc_file]
   \<and> filteredFiles (setSearchQuery [] (setSearchQuery ''PDF'' loaded_state)) = [doc_file, logo_file]
   \<and> files (setSearchQuery ''PDF'' loaded_state) = [doc_file, logo_file]"
proof -
  have q: "searchQuery (setSearchQuery ''PDF'' loaded_state) \<noteq> []"
    by (simp add: setSearchQuery_def)
  have fs: "files loaded_state = [doc_file, logo_file]"
    by (simp add: loaded_state_def)
  have f: "filteredFiles (setSearchQuery ''PDF'' loaded_state) = [doc_file]"
    by (simp add: filteredFiles_def setSearchQuery_def loaded_state_def doc_file_def
        logo_file_def toLowerCase_def lower_char_def startsWith_def)
  from filteredFiles_semantics [where s = "setSearchQuery ''PDF'' loaded_state"]
    filteredFiles_semantics [where s = loaded_state and q = "''PDF''"] q fs f
  show ?thesis by simp
qed

section \<open>Loading the catalog: properties\<close>

lemma scanPaths_eq:
  "scanPaths E ws lh ps acc = acc @ map (makeFile E ws lh) (filter (\<lambda>p. \<not> isDirectoryEntry p) ps)"
  by (induction ps arbitrary: acc) auto

lemma scanLakehouses_eq:
  "scanLakehouses E ws lhs acc lg =
     (acc @ concat (map (filesOfLakehouse E ws) lhs),
      lg @ concat (map (warningsOfLakehouse E ws) lhs))"
proof (induction lhs arbitrary: acc lg)
  case Nil
  show ?case by simp
next
  case (Cons lh rest)
  show ?case
  proof (cases "listing E ws lh")
    case (Inl e)
    then show ?thesis
      using Cons [of acc "lg @ [Warn (listingWarning lh) e]"]
      by (simp add: listing_def filesOfLakehouse_def warningsOfLakehouse_def)
  next
    case (Inr md)
    then show ?thesis
      using Cons [of "scanPaths E ws lh (entriesOf md) acc" lg]
      by (simp add: listing_def filesOfLakehouse_def warningsOfLakehouse_def scanPaths_eq
          entriesOf_def)
  qed
qed

text \<open>The four ways a build ends, when the client is set.\<close>

lemma loadFiles_resolver_throws:
  assumes "clientReady E" and "resolveWorkspace E iid = (Inl err, lg)"
  shows "loadFiles E iid st =
           (st\<lparr>loading := False, error := Some (getErrorMessage (JSON_stringify E) err)\<rparr>,
            lg @ [ErrorLog ''Failed to load files:'' err])"
  using assms by (simp add: loadFiles_def loadFiles_settle_def loadFiles_begin_def loadFailed_def)

lemma loadFiles_no_workspace:
  assumes "clientReady E"
    and "resolveWorkspace E iid = (Inr None, lg) \<or> resolveWorkspace E iid = (Inr (Some []), lg)"
  shows "loadFiles E iid st = (st\<lparr>loading := False, error := Some NO_WORKSPACE\<rparr>, lg)"
  using assms by (auto simp: loadFiles_def loadFiles_settle_def loadFiles_begin_def noWorkspace_def)

lemma loadFiles_proceeds:
  assumes "clientReady E" and "resolveWorkspace E iid = (Inr (Some ws), lg)" and "ws \<noteq> []"
  shows "loadFiles E iid st = loadFromWorkspace E ws lg (st\<lparr>loading := True, error := None\<rparr>)"
  using assms by (simp add: loadFiles_def loadFiles_settle_def loadFiles_begin_def)

lemma loadFromWorkspace_items_throw:
  assumes "getAllItems E ws = Inl err"
  shows "loadFromWorkspace E ws lg (st\<lparr>loading := True, error := None\<rparr>) =
           (st\<lparr>loading := False, error := Some (getErrorMessage (JSON_stringify E) err)\<rparr>,
            lg @ [ErrorLog ''Failed to load files:'' err])"
  using assms by (simp add: loadFromWorkspace_def loadFailed_def)

lemma loadFromWorkspace_no_lakehouses:
  assumes "getAllItems E ws = Inr items" and "filter isLakehouse items = []"
  shows "loadFromWorkspace E ws lg (st\<lparr>loading := True, error := None\<rparr>) =
           (st\<lparr>loading := False, workspaceId := Some ws, files := [],
               error := Some NO_LAKEHOUSES\<rparr>, lg)"
proof -
  have "filter (\<lambda>i. item_type i = ''Lakehouse'') items = []"
    using assms(2) by (simp add: isLakehouse_def [abs_def])
  with assms(1) show ?thesis
    by (simp add: loadFromWorkspace_def)
qed

lemma loadFromWorkspace_listed:
  assumes "getAllItems E ws = Inr items" and "filter isLakehouse items \<noteq> []"
  shows "loadFromWorkspace E ws lg (st\<lparr>loading := True, error := None\<rparr>) =
           (st\<lparr>files := concat (map (filesOfLakehouse E ws) (filter isLakehouse items)),
               workspaceId := Some ws, loading := False, error := None\<rparr>,
            lg @ concat (map (warningsOfLakehouse E ws) (filter isLakehouse items)))"
proof -
  have eq: "filter (\<lambda>i. item_type i = ''Lakehouse'') items = filter isLakehouse items"
    by (simp add: isLakehouse_def [abs_def])
  with assms show ?thesis
    by (simp add: loadFromWorkspace_def scanLakehouses_eq Let_def)
qed

section \<open>The example build\<close>

lemma example_listing:
  "listing example_env ws lakehouseA = Inl forbidden"
  "listing example_env ws lakehouseB = Inr \<lparr>paths = Some [entry_sub, entry_doc]\<rparr>"
  by (simp_all add: listing_def example_env_def lakehouseA_def lakehouseB_def)

lemma example_makeFile: "makeFile example_env ''ws1'' lakehouseB entry_doc = doc_file"
  by (simp add: makeFile_def pathInItem_def relativePathOf_def fileNameOf_def pop_last_def
      startsWith_def substring_from_def lakehouseB_def entry_doc_def doc_file_def example_env_def)

lemma example_isDirectoryEntry: "isDirectoryEntry entry_sub" "\<not> isDirectoryEntry entry_doc"
  by (simp_all add: isDirectoryEntry_def entry_sub_def entry_doc_def)

lemma example_filesOfLakehouse:
  "filesOfLakehouse example_env ''ws1'' lakehouseA = []"
  "filesOfLakehouse example_env ''ws1'' lakehouseB = [doc_file]"
  by (simp_all add: filesOfLakehouse_def example_listing entriesOf_def example_isDirectoryEntry
      example_makeFile)

lemma example_lakehouses:
  "filter isLakehouse [lakehouseA, notebookN, lakehouseB] = [lakehouseA, lakehouseB]"
  by (simp add: isLakehouse_def lakehouseA_def lakehouseB_def notebookN_def)

lemma example_resolveWorkspace:
  "resolveWorkspace example_env (Some ''item'') =
     (Inr (Some ''ws1''), [Warn ''Could not resolve workspace from item:''
                             (Obj True [(''message'', PStr ''item not found'')])])"
  by (simp add: resolveWorkspace_def workspaceFromItem_def example_env_def)

lemma example_loadFiles:
  "loadFiles example_env (Some ''item'') st =
     (st\<lparr>files := [doc_file], workspaceId := Some ''ws1'', loading := False, error := None\<rparr>,
      [Warn ''Could not resolve workspace from item:''
         (Obj True [(''message'', PStr ''item not found'')]),
       Warn (listingWarning lakehouseA) forbidden])"
proof -
  have r: "clientReady example_env"
    by (simp add: example_env_def)
  have i: "getAllItems example_env ''ws1'' = Inr [lakehouseA, notebookN, lakehouseB]"
    by (simp add: example_env_def)
  have ne: "filter isLakehouse [lakehouseA, notebookN, lakehouseB] \<noteq> []"
    unfolding example_lakehouses by simp
  have w: "warningsOfLakehouse example_env ''ws1'' lakehouseA = [Warn (listingWarning lakehouseA) forbidden]"
    "warningsOfLakehouse example_env ''ws1'' lakehouseB = []"
    by (simp_all add: warningsOfLakehouse_def example_listing)
  have fs: "concat (map (filesOfLakehouse example_env ''ws1'')
              (filter isLakehouse [lakehouseA, notebookN, lakehouseB])) = [doc_file]"
    unfolding example_lakehouses by (simp add: example_filesOfLakehouse)
  have ws: "concat (map (warningsOfLakehouse example_env ''ws1'')
              (filter isLakehouse [lakehouseA, notebookN, lakehouseB])) =
            [Warn (listingWarning lakehouseA) forbidden]"
    unfolding example_lakehouses by (simp add: w)
  have "loadFiles example_env (Some ''item'') st =
      loadFromWorkspace example_env ''ws1''
        [Warn ''Could not resolve workspace from item:''
           (Obj True [(''message'', PStr ''item not found'')])]
        (st\<lparr>loading := True, error := None\<rparr>)"
    using r example_resolveWorkspace by (rule loadFiles_proceeds) simp
  also have "\<dots> = (st\<lparr>files := [doc_file], workspaceId := Some ''ws1'', loading := False, error := None\<rparr>,
      [Warn ''Could not resolve workspace from item:''
         (Obj True [(''message'', PStr ''item not found'')]),
       Warn (listingWarning lakehouseA) forbidden])"
    unfolding loadFromWorkspace_listed [OF i ne] fs ws by simp
  finally show ?thesis .
qed

section \<open>Workspace resolution: properties\<close>

lemma workspaceFromItem_getItem_throws:
  "itemId \<noteq> [] \<Longrightarrow> getItem E itemId = Inl e \<Longrightarrow>
   workspaceFromItem E (Some itemId) = (None, [Warn ''Could not resolve workspace from item:'' e])"
  by (simp add: workspaceFromItem_def)

lemma workspaceFromItem_no_item: "workspaceFromItem E None = (None, [])"
  by (simp add: workspaceFromItem_def)

text \<open>When the item gives no workspace.\<close>

lemma workspaceFromItem_None_iff:
  "fst (workspaceFromItem E iid) = None \<longleftrightarrow>
     (case iid of
        None \<Rightarrow> True
      | Some itemId \<Rightarrow>
          itemId = [] \<or>
          (case getItem E itemId of
             Inl e \<Rightarrow> True
           | Inr r \<Rightarrow> (\<forall>res it w. r = Some res \<longrightarrow> result_item res = Some it \<longrightarrow>
                        info_workspaceId it = Some w \<longrightarrow> w = [])))"
  by (auto simp: workspaceFromItem_def split: option.splits sum.splits)

lemma resolveWorkspace_fallback:
  "workspaceFromItem E iid = (None, lg) \<Longrightarrow>
   resolveWorkspace E iid =
     (case getAllWorkspaces E of
        Inl e \<Rightarrow> (Inl e, lg)
      | Inr workspaces \<Rightarrow> (case workspaces of [] \<Rightarrow> (Inr None, lg) | w # rest \<Rightarrow> (Inr (Some (ws_id w)), lg)))"
  by (simp add: resolveWorkspace_def)

text \<open>
  Claim C6. When the workspace is not found from the item (no item id, or the call throws,
  or the result has no workspace id), the build asks for the list of workspaces and takes
  the id of the first one; with that id it goes on to list the items of the workspace, and
  a build that lists them stores the id. When the list is empty, or the id taken is empty,
  the build ends with the error \<open>No workspace found...\<close>, loading false, and the files it
  started from.
\<close>

theorem workspace_fallback:
  assumes "clientReady E" and "workspaceFromItem E iid = (None, lg)"
  shows "(getAllWorkspaces E = Inr (w # rest) \<longrightarrow>
            resolveWorkspace E iid = (Inr (Some (ws_id w)), lg)
            \<and> (ws_id w \<noteq> [] \<longrightarrow>
                 loadFiles E iid st =
                   loadFromWorkspace E (ws_id w) lg (st\<lparr>loading := True, error := None\<rparr>)
                 \<and> (\<forall>items. getAllItems E (ws_id w) = Inr items \<longrightarrow>
                       workspaceId (fst (loadFiles E iid st)) = Some (ws_id w))))
       \<and> (getAllWorkspaces E = Inr []
            \<or> (\<exists>w rest. getAllWorkspaces E = Inr (w # rest) \<and> ws_id w = []) \<longrightarrow>
            loadFiles E iid st = (st\<lparr>loading := False, error := Some NO_WORKSPACE\<rparr>, lg)
            \<and> error (fst (loadFiles E iid st)) = Some NO_WORKSPACE
            \<and> loading (fst (loadFiles E iid st)) = False
            \<and> files (fst (loadFiles E iid st)) = files st)"
proof (intro conjI impI)
  assume g: "getAllWorkspaces E = Inr (w # rest)"
  with assms(2) show r: "resolveWorkspace E iid = (Inr (Some (ws_id w)), lg)"
    by (simp add: resolveWorkspace_fallback)
  assume ne: "ws_id w \<noteq> []"
  from assms(1) r ne
  show p: "loadFiles E iid st =
      loadFromWorkspace E (ws_id w) lg (st\<lparr>loading := True, error := None\<rparr>)"
    by (rule loadFiles_proceeds)
  show "\<forall>items. getAllItems E (ws_id w) = Inr items \<longrightarrow>
          workspaceId (fst (loadFiles E iid st)) = Some (ws_id w)"
  proof (intro allI impI)
    fix items
    assume i: "getAllItems E (ws_id w) = Inr items"
    show "workspaceId (fst (loadFiles E iid st)) = Some (ws_id w)"
    proof (cases "filter isLakehouse items = []")
      case True
      with i p show ?thesis
        by (simp add: loadFromWorkspace_no_lakehouses)
    next
      case False
      with i p show ?thesis
        by (simp add: loadFromWorkspace_listed)
    qed
  qed
next
  assume "getAllWorkspaces E = Inr []
            \<or> (\<exists>w rest. getAllWorkspaces E = Inr (w # rest) \<and> ws_id w = [])"
  with assms(2)
  have "resolveWorkspace E iid = (Inr None, lg) \<or> resolveWorkspace E iid = (Inr (Some []), lg)"
    by (auto simp: resolveWorkspace_fallback)
  with assms(1)
  have l: "loadFiles E iid st = (st\<lparr>loading := False, error := Some NO_WORKSPACE\<rparr>, lg)"
    by (rule loadFiles_no_workspace)
  then show "loadFiles E iid st = (st\<lparr>loading := False, error := Some NO_WORKSPACE\<rparr>, lg)" .
  from l show "error (fst (loadFiles E iid st)) = Some NO_WORKSPACE" by simp
  from l show "loading (fst (loadFiles E iid st)) = False" by simp
  from l show "files (fst (loadFiles E iid st)) = files st" by simp
qed

theorem workspace_fallback_witness:
  "clientReady example_env
   \<and> workspaceFromItem example_env (Some ''item'') =
       (None, [Warn ''Could not resolve workspace from item:''
                 (Obj True [(''message'', PStr ''item not found'')])])
   \<and> getAllWorkspaces example_env = Inr [\<lparr>ws_id = ''ws1''\<rparr>]
   \<and> resolveWorkspace example_env (Some ''item'') =
       (Inr (Some ''ws1''), [Warn ''Could not resolve workspace from item:''
                 (Obj True [(''message'', PStr ''item not found'')])])
   \<and> workspaceId (fst (loadFiles example_env (Some ''item'') initial_state)) = Some ''ws1''
   \<and> getAllWorkspaces (example_env\<lparr>getAllWorkspaces := Inr []\<rparr>) = Inr []
   \<and> loadFiles (example_env\<lparr>getAllWorkspaces := Inr []\<rparr>) (Some ''item'') loaded_state =
       (loaded_state\<lparr>loading := False, error := Some NO_WORKSPACE\<rparr>,
        [Warn ''Could not resolve workspace from item:''
                 (Obj True [(''message'', PStr ''item not found'')])])"
proof -
  let ?E0 = "example_env\<lparr>getAllWorkspaces := Inr []\<rparr>"
  let ?lg = "[Warn ''Could not resolve workspace from item:''
                 (Obj True [(''message'', PStr ''item not found'')])]"
  have r: "clientReady example_env" and r0: "clientReady ?E0"
    by (simp_all add: example_env_def)
  have w: "workspaceFromItem example_env (Some ''item'') = (None, ?lg)"
    and w0: "workspaceFromItem ?E0 (Some ''item'') = (None, ?lg)"
    by (simp_all add: workspaceFromItem_def example_env_def)
  have g: "getAllWorkspaces example_env = Inr [\<lparr>ws_id = ''ws1''\<rparr>]"
    by (simp add: example_env_def)
  have g0: "getAllWorkspaces ?E0 = Inr []"
    by simp
  let ?w = "\<lparr>ws_id = ''ws1''\<rparr>"
  have i: "getAllItems example_env (ws_id ?w) = Inr [lakehouseA, notebookN, lakehouseB]"
    by (simp add: example_env_def)
  have ne: "ws_id ?w \<noteq> []"
    by simp
  from workspace_fallback [OF r w, of ?w "[]" initial_state] g ne i
  have a: "resolveWorkspace example_env (Some ''item'') = (Inr (Some (ws_id ?w)), ?lg)
           \<and> workspaceId (fst (loadFiles example_env (Some ''item'') initial_state))
               = Some (ws_id ?w)"
    by blast
  from workspace_fallback [OF r0 w0, of _ _ loaded_state] g0
  have b: "loadFiles ?E0 (Some ''item'') loaded_state =
       (loaded_state\<lparr>loading := False, error := Some NO_WORKSPACE\<rparr>, ?lg)"
    by blast
  from a b r w g g0 show ?thesis
    by simp
qed

section \<open>Failures of the top-level calls\<close>

text \<open>
  Claim C4. When the fallback call for the list of workspaces throws, or the call that
  lists the items of the workspace throws, the build ends with the top-level error set to
  the message derived from the thrown value, with loading false, and with the files it
  started from.
\<close>

theorem top_level_failure_keeps_files:
  assumes "clientReady E"
    and "(fst (workspaceFromItem E iid) = None \<and> getAllWorkspaces E = Inl err)
         \<or> (\<exists>ws lg. resolveWorkspace E iid = (Inr (Some ws), lg) \<and> ws \<noteq> []
                    \<and> getAllItems E ws = Inl err)"
  shows "fst (loadFiles E iid st) =
           st\<lparr>loading := False, error := Some (getErrorMessage (JSON_stringify E) err)\<rparr>
         \<and> error (fst (loadFiles E iid st)) = Some (getErrorMessage (JSON_stringify E) err)
         \<and> loading (fst (loadFiles E iid st)) = False
         \<and> files (fst (loadFiles E iid st)) = files st
         \<and> ErrorLog ''Failed to load files:'' err \<in> set (snd (loadFiles E iid st))"
proof -
  have "\<exists>lg. loadFiles E iid st =
           (st\<lparr>loading := False, error := Some (getErrorMessage (JSON_stringify E) err)\<rparr>,
            lg @ [ErrorLog ''Failed to load files:'' err])"
    using assms(2)
  proof
    assume a: "fst (workspaceFromItem E iid) = None \<and> getAllWorkspaces E = Inl err"
    then obtain lg where "workspaceFromItem E iid = (None, lg)"
      by (cases "workspaceFromItem E iid") auto
    with a have "resolveWorkspace E iid = (Inl err, lg)"
      by (simp add: resolveWorkspace_fallback)
    with assms(1) show ?thesis
      using loadFiles_resolver_throws by blast
  next
    assume "\<exists>ws lg. resolveWorkspace E iid = (Inr (Some ws), lg) \<and> ws \<noteq> []
                    \<and> getAllItems E ws = Inl err"
    then obtain ws lg where r: "resolveWorkspace E iid = (Inr (Some ws), lg)" "ws \<noteq> []"
      and i: "getAllItems E ws = Inl err"
      by blast
    from assms(1) r have "loadFiles E iid st =
        loadFromWorkspace E ws lg (st\<lparr>loading := True, error := None\<rparr>)"
      by (rule loadFiles_proceeds)
    with i show ?thesis
      using loadFromWorkspace_items_throw by fastforce
  qed
  then obtain lg where "loadFiles E iid st =
           (st\<lparr>loading := False, error := Some (getErrorMessage (JSON_stringify E) err)\<rparr>,
            lg @ [ErrorLog ''Failed to load files:'' err])" ..
  then show ?thesis by simp
qed

theorem top_level_failure_keeps_files_witness:
  "clientReady (example_env\<lparr>getAllWorkspaces := Inl network_down\<rparr>)
   \<and> fst (workspaceFromItem (example_env\<lparr>getAllWorkspaces := Inl network_down\<rparr>) (Some ''item'')) = None
   \<and> getAllWorkspaces (example_env\<lparr>getAllWorkspaces := Inl network_down\<rparr>) = Inl network_down
   \<and> fst (loadFiles (example_env\<lparr>getAllWorkspaces := Inl network_down\<rparr>) (Some ''item'') loaded_state)
       = loaded_state\<lparr>loading := False, error := Some ''Network request failed''\<rparr>
   \<and> files (fst (loadFiles (example_env\<lparr>getAllWorkspaces := Inl network_down\<rparr>) (Some ''item'')
              loaded_state)) = [doc_file, logo_file]
   \<and> resolveWorkspace (example_env\<lparr>getAllItems := (\<lambda>ws. Inl network_down)\<rparr>) (Some ''item'')
       = (Inr (Some ''ws1''),
          [Warn ''Could not resolve workspace from item:''
             (Obj True [(''message'', PStr ''item not found'')])])
   \<and> getAllItems (example_env\<lparr>getAllItems := (\<lambda>ws. Inl network_down)\<rparr>) ''ws1'' = Inl network_down
   \<and> fst (loadFiles (example_env\<lparr>getAllItems := (\<lambda>ws. Inl network_down)\<rparr>) (Some ''item'') loaded_state)
       = loaded_state\<lparr>loading := False, error := Some ''Network request failed''\<rparr>"
proof -
  let ?E1 = "example_env\<lparr>getAllWorkspaces := Inl network_down\<rparr>"
  let ?E2 = "example_env\<lparr>getAllItems := (\<lambda>ws. Inl network_down)\<rparr>"
  have msg: "getErrorMessage f network_down = ''Network request failed''" for f
    by (simp add: getErrorMessage_def network_down_def field_def)
  have r1: "clientReady ?E1" and r2: "clientReady ?E2"
    by (simp_all add: example_env_def)
  have w1: "fst (workspaceFromItem ?E1 (Some ''item'')) = None"
    by (simp add: workspaceFromItem_def example_env_def)
  have g1: "getAllWorkspaces ?E1 = Inl network_down"
    by simp
  have w2: "resolveWorkspace ?E2 (Some ''item'')
       = (Inr (Some ''ws1''),
          [Warn ''Could not resolve workspace from item:''
             (Obj True [(''message'', PStr ''item not found'')])])"
    by (simp add: resolveWorkspace_def workspaceFromItem_def example_env_def)
  have g2: "getAllItems ?E2 ''ws1'' = Inl network_down"
    by simp
  have fs: "files loaded_state = [doc_file, logo_file]"
    by (simp add: loaded_state_def)
  have h1: "(fst (workspaceFromItem ?E1 (Some ''item'')) = None \<and> getAllWorkspaces ?E1 = Inl network_down)
         \<or> (\<exists>ws lg. resolveWorkspace ?E1 (Some ''item'') = (Inr (Some ws), lg) \<and> ws \<noteq> []
                    \<and> getAllItems ?E1 ws = Inl network_down)"
    using w1 g1 by blast
  have h2: "(fst (workspaceFromItem ?E2 (Some ''item'')) = None \<and> getAllWorkspaces ?E2 = Inl network_down)
         \<or> (\<exists>ws lg. resolveWorkspace ?E2 (Some ''item'') = (Inr (Some ws), lg) \<and> ws \<noteq> []
                    \<and> getAllItems ?E2 ws = Inl network_down)"
    using w2 g2 by blast
  from top_level_failure_keeps_files [OF r1 h1, of loaded_state]
    top_level_failure_keeps_files [OF r2 h2, of loaded_state]
    r1 w1 g1 w2 g2 fs msg
  show ?thesis by simp
qed

section \<open>Listing the lakehouses: properties\<close>

lemma filesOfLakehouse_listed:
  "listing E ws lh = Inr md \<Longrightarrow> p \<in> set (entriesOf md) \<Longrightarrow> \<not> isDirectoryEntry p \<Longrightarrow>
   makeFile E ws lh p \<in> set (filesOfLakehouse E ws lh)"
  by (simp add: filesOfLakehouse_def)

lemma warningsOfLakehouse_refused:
  "listing E ws lh = Inl e \<Longrightarrow> Warn (listingWarning lh) e \<in> set (warningsOfLakehouse E ws lh)"
  by (simp add: warningsOfLakehouse_def)

text \<open>The last update of a build that lists lakehouses, applied to any state.\<close>

lemma loadFromWorkspace_commit:
  assumes "getAllItems E ws = Inr items" and "filter isLakehouse items \<noteq> []"
  shows "loadFromWorkspace E ws lg prev =
           (prev\<lparr>files := concat (map (filesOfLakehouse E ws) (filter isLakehouse items)),
                 workspaceId := Some ws, loading := False\<rparr>,
            lg @ concat (map (warningsOfLakehouse E ws) (filter isLakehouse items)))"
proof -
  have eq: "filter (\<lambda>i. item_type i = ''Lakehouse'') items = filter isLakehouse items"
    by (simp add: isLakehouse_def [abs_def])
  with assms show ?thesis
    by (simp add: loadFromWorkspace_def scanLakehouses_eq Let_def)
qed

lemma loadFiles_settle_proceeds:
  assumes "resolveWorkspace E iid = (Inr (Some ws), lg)" and "ws \<noteq> []"
  shows "loadFiles_settle E iid prev = loadFromWorkspace E ws lg prev"
  using assms by (simp add: loadFiles_settle_def)

lemma example_settle:
  "loadFiles_settle example_env (Some ''item'') prev =
     (prev\<lparr>files := [doc_file], workspaceId := Some ''ws1'', loading := False\<rparr>,
      [Warn ''Could not resolve workspace from item:''
         (Obj True [(''message'', PStr ''item not found'')]),
       Warn (listingWarning lakehouseA) forbidden])"
proof -
  have i: "getAllItems example_env ''ws1'' = Inr [lakehouseA, notebookN, lakehouseB]"
    by (simp add: example_env_def)
  have ne: "filter isLakehouse [lakehouseA, notebookN, lakehouseB] \<noteq> []"
    unfolding example_lakehouses by simp
  have w: "warningsOfLakehouse example_env ''ws1'' lakehouseA = [Warn (listingWarning lakehouseA) forbidden]"
    "warningsOfLakehouse example_env ''ws1'' lakehouseB = []"
    by (simp_all add: warningsOfLakehouse_def example_listing)
  have fs: "concat (map (filesOfLakehouse example_env ''ws1'')
              (filter isLakehouse [lakehouseA, notebookN, lakehouseB])) = [doc_file]"
    unfolding example_lakehouses by (simp add: example_filesOfLakehouse)
  have ws: "concat (map (warningsOfLakehouse example_env ''ws1'')
              (filter isLakehouse [lakehouseA, notebookN, lakehouseB])) =
            [Warn (listingWarning lakehouseA) forbidden]"
    unfolding example_lakehouses by (simp add: w)
  have "loadFiles_settle example_env (Some ''item'') prev =
      loadFromWorkspace example_env ''ws1''
        [Warn ''Could not resolve workspace from item:''
           (Obj True [(''message'', PStr ''item not found'')])] prev"
    using example_resolveWorkspace by (rule loadFiles_settle_proceeds) simp
  then show ?thesis
    unfolding loadFromWorkspace_commit [OF i ne] fs ws by simp
qed

lemma failing_items_settle:
  "fst (loadFiles_settle failing_items_env (Some ''item'') prev) =
     prev\<lparr>loading := False, error := Some ''Network request failed''\<rparr>"
proof -
  have r: "resolveWorkspace failing_items_env (Some ''item'') =
     (Inr (Some ''ws1''), [Warn ''Could not resolve workspace from item:''
                             (Obj True [(''message'', PStr ''item not found'')])])"
    by (simp add: resolveWorkspace_def workspaceFromItem_def failing_items_env_def example_env_def)
  have i: "getAllItems failing_items_env ''ws1'' = Inl network_down"
    by (simp add: failing_items_env_def)
  have msg: "getErrorMessage f network_down = ''Network request failed''" for f
    by (simp add: getErrorMessage_def network_down_def field_def)
  have "loadFiles_settle failing_items_env (Some ''item'') prev =
      loadFromWorkspace failing_items_env ''ws1''
        [Warn ''Could not resolve workspace from item:''
           (Obj True [(''message'', PStr ''item not found'')])] prev"
    using r by (rule loadFiles_settle_proceeds) simp
  then show ?thesis
    by (simp add: loadFromWorkspace_def i loadFailed_def msg)
qed

text \<open>
  Two builds that overlap, from the initial state: both have made their first update when
  the first build ends because the call that lists the items threw; then the second build,
  where the listing of \<open>A\<close> is refused and the listing of \<open>B\<close> succeeds, stores the file of
  \<open>B\<close>. Its last update does not write the error, and the error of the first build stays.
\<close>

theorem partial_failure_stale_error_counterexample:
  "listing example_env ''ws1'' lakehouseA = Inl forbidden
   \<and> listing example_env ''ws1'' lakehouseB = Inr \<lparr>paths = Some [entry_sub, entry_doc]\<rparr>
   \<and> files (fst (loadFiles_settle example_env (Some ''item'')
         (fst (loadFiles_settle failing_items_env (Some ''item'')
            (loadFiles_begin (loadFiles_begin initial_state)))))) = [doc_file]
   \<and> loading (fst (loadFiles_settle example_env (Some ''item'')
         (fst (loadFiles_settle failing_items_env (Some ''item'')
            (loadFiles_begin (loadFiles_begin initial_state)))))) = False
   \<and> error (fst (loadFiles_settle example_env (Some ''item'')
         (fst (loadFiles_settle failing_items_env (Some ''item'')
            (loadFiles_begin (loadFiles_begin initial_state)))))) = Some ''Network request failed''"
  by (simp add: example_listing example_settle failing_items_settle)

text \<open>
  Claim C3, amended. In a build that reaches the lakehouses, where the listing of
  lakehouse \<open>A\<close> is refused and the listing of lakehouse \<open>B\<close> succeeds, the last update of the
  build stores what the lakehouses contribute, in their order, with loading false and the
  workspace id; \<open>A\<close> contributes nothing; every entry of \<open>B\<close>'s listing that is not a directory
  has its record among the files; and the console holds the warning for \<open>A\<close> with the thrown
  value. The top-level error is null after this update when it was null before it, as it
  is when nothing has set it since the first update of the build; so it is null at the end
  of a build that runs with no other update of the state in between.
\<close>

theorem partial_failure_tolerated_at_commit:
  assumes "resolveWorkspace E iid = (Inr (Some ws), lg0)" and "ws \<noteq> []"
    and "getAllItems E ws = Inr items"
    and "A \<in> set items" and "isLakehouse A" and "listing E ws A = Inl e"
    and "B \<in> set items" and "isLakehouse B" and "listing E ws B = Inr md"
  shows "(error prev = None \<longrightarrow> error (fst (loadFiles_settle E iid prev)) = None)
         \<and> loading (fst (loadFiles_settle E iid prev)) = False
         \<and> workspaceId (fst (loadFiles_settle E iid prev)) = Some ws
         \<and> files (fst (loadFiles_settle E iid prev)) =
             concat (map (filesOfLakehouse E ws) (filter isLakehouse items))
         \<and> filesOfLakehouse E ws A = []
         \<and> (\<forall>p \<in> set (entriesOf md). \<not> isDirectoryEntry p \<longrightarrow>
               makeFile E ws B p \<in> set (files (fst (loadFiles_settle E iid prev))))
         \<and> Warn (listingWarning A) e \<in> set (snd (loadFiles_settle E iid prev))
         \<and> (clientReady E \<longrightarrow>
               loadFiles E iid st = loadFiles_settle E iid (loadFiles_begin st)
               \<and> error (loadFiles_begin st) = None
               \<and> error (fst (loadFiles E iid st)) = None)"
proof -
  let ?lhs = "filter isLakehouse items"
  have A: "A \<in> set ?lhs" and B: "B \<in> set ?lhs"
    using assms by simp_all
  then have "?lhs \<noteq> []"
    by (auto simp: filter_empty_conv)
  with assms(1-3) have run: "loadFiles_settle E iid s =
      (s\<lparr>files := concat (map (filesOfLakehouse E ws) ?lhs),
          workspaceId := Some ws, loading := False\<rparr>,
       lg0 @ concat (map (warningsOfLakehouse E ws) ?lhs))" for s
    by (simp add: loadFiles_settle_proceeds loadFromWorkspace_commit)
  have "makeFile E ws B p \<in> set (concat (map (filesOfLakehouse E ws) ?lhs))"
    if "p \<in> set (entriesOf md)" and "\<not> isDirectoryEntry p" for p
    using filesOfLakehouse_listed [OF assms(9) that] B by auto
  moreover have "Warn (listingWarning A) e \<in> set (concat (map (warningsOfLakehouse E ws) ?lhs))"
    using warningsOfLakehouse_refused [OF assms(6)] A by auto
  moreover have "filesOfLakehouse E ws A = []"
    using assms(6) by (simp add: filesOfLakehouse_def)
  ultimately show ?thesis
    by (simp add: run loadFiles_def loadFiles_begin_def)
qed

theorem partial_failure_tolerated_at_commit_witness:
  "listing example_env ''ws1'' lakehouseA = Inl forbidden
   \<and> listing example_env ''ws1'' lakehouseB = Inr \<lparr>paths = Some [entry_sub, entry_doc]\<rparr>
   \<and> error stale_state = Some ''Previous failure''
   \<and> error (setSearchQuery ''PDF'' (loadFiles_begin stale_state)) = None
   \<and> error (fst (loadFiles_settle example_env (Some ''item'')
               (setSearchQuery ''PDF'' (loadFiles_begin stale_state)))) = None
   \<and> loading (fst (loadFiles_settle example_env (Some ''item'')
               (setSearchQuery ''PDF'' (loadFiles_begin stale_state)))) = False
   \<and> files stale_state = [doc_file, logo_file]
   \<and> files (fst (loadFiles_settle example_env (Some ''item'')
               (setSearchQuery ''PDF'' (loadFiles_begin stale_state)))) = [doc_file]
   \<and> entry_doc \<in> set (entriesOf \<lparr>paths = Some [entry_sub, entry_doc]\<rparr>)
   \<and> \<not> isDirectoryEntry entry_doc
   \<and> makeFile example_env ''ws1'' lakehouseB entry_doc
       \<in> set (files (fst (loadFiles_settle example_env (Some ''item'')
               (setSearchQuery ''PDF'' (loadFiles_begin stale_state)))))
   \<and> Warn (listingWarning lakehouseA) forbidden
       \<in> set (snd (loadFiles_settle example_env (Some ''item'')
               (setSearchQuery ''PDF'' (loadFiles_begin stale_state))))
   \<and> clientReady example_env
   \<and> error (fst (loadFiles example_env (Some ''item'') stale_state)) = None"
proof -
  let ?prev = "setSearchQuery ''PDF'' (loadFiles_begin stale_state)"
  have r: "clientReady example_env"
    by (simp add: example_env_def)
  have ne: "''ws1'' \<noteq> []"
    by simp
  have i: "getAllItems example_env ''ws1'' = Inr [lakehouseA, notebookN, lakehouseB]"
    by (simp add: example_env_def)
  have A: "lakehouseA \<in> set [lakehouseA, notebookN, lakehouseB]" "isLakehouse lakehouseA"
    and B: "lakehouseB \<in> set [lakehouseA, notebookN, lakehouseB]" "isLakehouse lakehouseB"
    by (simp_all add: isLakehouse_def lakehouseA_def lakehouseB_def)
  have st: "error stale_state = Some ''Previous failure''" "files stale_state = [doc_file, logo_file]"
    by (simp_all add: stale_state_def loaded_state_def)
  have e: "error ?prev = None"
    by (simp add: setSearchQuery_def loadFiles_begin_def)
  have fs: "concat (map (filesOfLakehouse example_env ''ws1'')
              (filter isLakehouse [lakehouseA, notebookN, lakehouseB])) = [doc_file]"
    unfolding example_lakehouses by (simp add: example_filesOfLakehouse)
  have p: "entry_doc \<in> set (entriesOf \<lparr>paths = Some [entry_sub, entry_doc]\<rparr>)"
    by (simp add: entriesOf_def)
  note t = partial_failure_tolerated_at_commit [OF example_resolveWorkspace ne i A example_listing(1)
      B example_listing(2), of ?prev stale_state]
  from t e r fs p example_isDirectoryEntry(2)
  have "error (fst (loadFiles_settle example_env (Some ''item'') ?prev)) = None
    \<and> loading (fst (loadFiles_settle example_env (Some ''item'') ?prev)) = False
    \<and> files (fst (loadFiles_settle example_env (Some ''item'') ?prev)) = [doc_file]
    \<and> makeFile example_env ''ws1'' lakehouseB entry_doc
         \<in> set (files (fst (loadFiles_settle example_env (Some ''item'') ?prev)))
    \<and> Warn (listingWarning lakehouseA) forbidden
         \<in> set (snd (loadFiles_settle example_env (Some ''item'') ?prev))
    \<and> error (fst (loadFiles example_env (Some ''item'') stale_state)) = None"
    by metis
  with example_listing st e r p example_isDirectoryEntry(2) show ?thesis
    by blast
qed

section \<open>Directory entries\<close>

lemma show_nat_digits: "show_nat n \<noteq> [] \<and> hd (show_nat n) \<in> set ''0123456789''"
proof (induction n rule: show_nat.induct)
  case (1 n)
  show ?case
  proof (cases "n < 10")
    case True
    then have "''0123456789'' ! n \<in> set ''0123456789''"
      by (intro nth_mem) simp
    with True show ?thesis
      by (subst (1 2) show_nat.simps) (simp add: digit_char_def)
  next
    case False
    with 1 show ?thesis
      by (subst (1 2) show_nat.simps) simp
  qed
qed

lemma show_int_not_true: "show_int i \<noteq> ''true''"
proof (cases "i < 0")
  case True
  then show ?thesis by (simp add: show_int_def)
next
  case False
  have "hd (show_nat (nat i)) \<in> set ''0123456789''"
    using show_nat_digits by blast
  then have "show_nat (nat i) \<noteq> ''true''"
    by auto
  with False show ?thesis by (simp add: show_int_def)
qed

lemma js_String_true_iff: "js_String v = ''true'' \<longleftrightarrow> v = PBool True \<or> v = PStr ''true''"
  by (cases v) (auto simp: show_int_not_true)

lemma isDirectoryEntry_iff:
  "isDirectoryEntry p \<longleftrightarrow> p_isDirectory p = PBool True \<or> p_isDirectory p = PStr ''true''"
  by (simp add: isDirectoryEntry_def js_String_true_iff)

lemma filesOfLakehouse_origin:
  assumes "f \<in> set (filesOfLakehouse E ws lh)"
  shows "\<exists>md p. listing E ws lh = Inr md \<and> p \<in> set (entriesOf md) \<and> \<not> isDirectoryEntry p
                \<and> f = makeFile E ws lh p"
  using assms by (cases "listing E ws lh") (auto simp: filesOfLakehouse_def)

lemma loadFiles_files:
  "files (fst (loadFiles E iid st)) = files st
   \<or> (\<exists>ws items. getAllItems E ws = Inr items
         \<and> files (fst (loadFiles E iid st)) =
             concat (map (filesOfLakehouse E ws) (filter isLakehouse items)))"
proof (cases "clientReady E")
  case False
  then show ?thesis by (simp add: loadFiles_def)
next
  case True
  note ready = this
  obtain r lg where res: "resolveWorkspace E iid = (r, lg)"
    by (cases "resolveWorkspace E iid")
  show ?thesis
  proof (cases r)
    case (Inl err)
    with ready res show ?thesis
      by (simp add: loadFiles_resolver_throws)
  next
    case (Inr w)
    show ?thesis
    proof (cases "w = None \<or> w = Some []")
      case True
      with ready res Inr show ?thesis
        by (auto simp: loadFiles_no_workspace)
    next
      case False
      then obtain ws where ws: "w = Some ws" "ws \<noteq> []"
        by auto
      with ready res Inr have run: "loadFiles E iid st =
          loadFromWorkspace E ws lg (st\<lparr>loading := True, error := None\<rparr>)"
        by (simp add: loadFiles_proceeds)
      show ?thesis
      proof (cases "getAllItems E ws")
        case (Inl err)
        with run show ?thesis
          by (simp add: loadFromWorkspace_items_throw)
      next
        case (Inr items)
        show ?thesis
        proof (cases "filter isLakehouse items = []")
          case True
          with run Inr have "files (fst (loadFiles E iid st)) =
              concat (map (filesOfLakehouse E ws) (filter isLakehouse items))"
            by (simp add: loadFromWorkspace_no_lakehouses)
          with Inr show ?thesis by blast
        next
          case False
          with run Inr have "files (fst (loadFiles E iid st)) =
              concat (map (filesOfLakehouse E ws) (filter isLakehouse items))"
            by (simp add: loadFromWorkspace_listed)
          with Inr show ?thesis by blast
        qed
      qed
    qed
  qed
qed

text \<open>
  Claim C8. A build either leaves the files as they were or replaces them by records that
  each come from an entry of the listing of a lakehouse of the workspace, and that entry is
  not flagged as a directory: its \<open>isDirectory\<close> is neither \<open>true\<close> nor the string \<open>true\<close>.
\<close>

theorem directories_excluded:
  "files (fst (loadFiles E iid st)) = files st
   \<or> (\<exists>ws items. getAllItems E ws = Inr items
         \<and> files (fst (loadFiles E iid st)) =
             concat (map (filesOfLakehouse E ws) (filter isLakehouse items))
         \<and> (\<forall>f \<in> set (files (fst (loadFiles E iid st))).
               \<exists>lh md p. lh \<in> set items \<and> isLakehouse lh \<and> listing E ws lh = Inr md
                 \<and> p \<in> set (entriesOf md)
                 \<and> \<not> isDirectoryEntry p
                 \<and> p_isDirectory p \<noteq> PBool True \<and> p_isDirectory p \<noteq> PStr ''true''
                 \<and> f = makeFile E ws lh p))"
proof -
  have origin: "\<exists>lh md p. lh \<in> set items \<and> isLakehouse lh \<and> listing E ws lh = Inr md
                 \<and> p \<in> set (entriesOf md)
                 \<and> \<not> isDirectoryEntry p
                 \<and> p_isDirectory p \<noteq> PBool True \<and> p_isDirectory p \<noteq> PStr ''true''
                 \<and> f = makeFile E ws lh p"
    if "f \<in> set (concat (map (filesOfLakehouse E ws) (filter isLakehouse items)))"
    for f ws items
  proof -
    from that obtain lh where lh: "lh \<in> set items" "isLakehouse lh"
      and f: "f \<in> set (filesOfLakehouse E ws lh)"
      by auto
    from filesOfLakehouse_origin [OF f] obtain md p where
      "listing E ws lh = Inr md" "p \<in> set (entriesOf md)" "\<not> isDirectoryEntry p"
      "f = makeFile E ws lh p"
      by blast
    with lh show ?thesis
      using isDirectoryEntry_iff by blast
  qed
  from loadFiles_files [of E iid st] show ?thesis
  proof
    assume "files (fst (loadFiles E iid st)) = files st"
    then show ?thesis ..
  next
    assume "\<exists>ws items. getAllItems E ws = Inr items
         \<and> files (fst (loadFiles E iid st)) =
             concat (map (filesOfLakehouse E ws) (filter isLakehouse items))"
    then obtain ws items where "getAllItems E ws = Inr items"
      and "files (fst (loadFiles E iid st)) =
             concat (map (filesOfLakehouse E ws) (filter isLakehouse items))"
      by blast
    with origin [of _ ws items] show ?thesis
      by (intro disjI2 exI [of _ ws] exI [of _ items]) simp
  qed
qed

theorem directories_excluded_witness:
  "files (fst (loadFiles example_env (Some ''item'') initial_state)) = [doc_file]
   \<and> files (fst (loadFiles example_env (Some ''item'') initial_state)) \<noteq> files initial_state
   \<and> isDirectoryEntry entry_sub
   \<and> (\<exists>ws items. getAllItems example_env ws = Inr items
         \<and> (\<forall>f \<in> set (files (fst (loadFiles example_env (Some ''item'') initial_state))).
               \<exists>lh md p. lh \<in> set items \<and> isLakehouse lh \<and> listing example_env ws lh = Inr md
                 \<and> p \<in> set (entriesOf md)
                 \<and> \<not> isDirectoryEntry p
                 \<and> p_isDirectory p \<noteq> PBool True \<and> p_isDirectory p \<noteq> PStr ''true''
                 \<and> f = makeFile example_env ws lh p))"
proof -
  have a: "files (fst (loadFiles example_env (Some ''item'') initial_state)) = [doc_file]"
    by (simp add: example_loadFiles)
  have b: "files (fst (loadFiles example_env (Some ''item'') initial_state)) \<noteq> files initial_state"
    by (simp add: example_loadFiles initial_state_def)
  from directories_excluded [of example_env "Some ''item''" initial_state] b
  have "\<exists>ws items. getAllItems example_env ws = Inr items
         \<and> (\<forall>f \<in> set (files (fst (loadFiles example_env (Some ''item'') initial_state))).
               \<exists>lh md p. lh \<in> set items \<and> isLakehouse lh \<and> listing example_env ws lh = Inr md
                 \<and> p \<in> set (entriesOf md)
                 \<and> \<not> isDirectoryEntry p
                 \<and> p_isDirectory p \<noteq> PBool True \<and> p_isDirectory p \<noteq> PStr ''true''
                 \<and> f = makeFile example_env ws lh p)"
    by blast
  with a b example_isDirectoryEntry(1) show ?thesis
    by blast
qed

section \<open>Full paths\<close>

lemma fullPath_makeFile:
  "fullPath (makeFile E ws lh p) = getPath E ws (item_id lh) (pathInItem lh p)"
  by (simp add: makeFile_def Let_def)

lemma pathInItem_prefixed:
  assumes "prefix (item_id lh @ ''/'') (p_name p)"
  shows "p_name p = item_id lh @ ''/'' @ pathInItem lh p"
proof -
  from assms obtain r where "p_name p = (item_id lh @ ''/'') @ r"
    by (auto simp: prefix_def)
  then show ?thesis
    by (simp add: pathInItem_def startsWith_def substring_from_def)
qed

lemma distinct_map_transfer:
  assumes "distinct (map g xs)"
    and "\<And>x y. x \<in> set xs \<Longrightarrow> y \<in> set xs \<Longrightarrow> f x = f y \<Longrightarrow> g x = g y"
  shows "distinct (map f xs)"
  using assms
proof (induction xs)
  case Nil
  show ?case by simp
next
  case (Cons x xs)
  have "f x \<notin> f ` set xs"
  proof
    assume "f x \<in> f ` set xs"
    then obtain y where y: "y \<in> set xs" "f x = f y"
      by auto
    then have "g x = g y"
      using Cons.prems(2) [of x y] by simp
    with y(1) Cons.prems(1) show False
      by auto
  qed
  moreover have "distinct (map f xs)"
    using Cons by simp
  ultimately show ?case by simp
qed

text \<open>
  \<open>S\<close> is a set of item ids on which \<^verbatim>\<open>getPath\<close>, for the workspace \<open>ws\<close>, gives different
  paths for different pairs of item id and path.
\<close>

lemma getPath_apart:
  assumes "inj_on (\<lambda>(i, path). getPath E ws i path) (S \<times> UNIV)"
    and "i \<in> S" and "j \<in> S" and "getPath E ws i a = getPath E ws j b"
  shows "i = j \<and> a = b"
proof -
  have "(i, a) = (j, b)"
    using inj_onD [OF assms(1), of "(i, a)" "(j, b)"] assms(2-) by simp
  then show ?thesis by simp
qed

lemma fullPaths_of_one_lakehouse:
  assumes inj: "inj_on (\<lambda>(i, path). getPath E ws i path) (S \<times> UNIV)"
    and S: "item_id lh \<in> S"
    and names: "\<And>md. listing E ws lh = Inr md \<Longrightarrow>
       distinct (map p_name (filter (\<lambda>p. \<not> isDirectoryEntry p) (entriesOf md)))
       \<and> (\<forall>p \<in> set (entriesOf md). \<not> isDirectoryEntry p \<longrightarrow> prefix (item_id lh @ ''/'') (p_name p))"
  shows "distinct (map fullPath (filesOfLakehouse E ws lh))"
proof (cases "listing E ws lh")
  case (Inl e)
  then show ?thesis by (simp add: filesOfLakehouse_def)
next
  case (Inr md)
  let ?es = "filter (\<lambda>p. \<not> isDirectoryEntry p) (entriesOf md)"
  from names [OF Inr] have d: "distinct (map p_name ?es)"
    and pre: "\<And>p. p \<in> set ?es \<Longrightarrow> prefix (item_id lh @ ''/'') (p_name p)"
    by auto
  have "distinct (map (\<lambda>p. getPath E ws (item_id lh) (pathInItem lh p)) ?es)"
    using d
  proof (rule distinct_map_transfer)
    fix x y
    assume x: "x \<in> set ?es" and y: "y \<in> set ?es"
      and eq: "getPath E ws (item_id lh) (pathInItem lh x) = getPath E ws (item_id lh) (pathInItem lh y)"
    from getPath_apart [OF inj S S eq] have "pathInItem lh x = pathInItem lh y"
      by simp
    with pathInItem_prefixed [OF pre [OF x]] pathInItem_prefixed [OF pre [OF y]]
    show "p_name x = p_name y"
      by simp
  qed
  with Inr show ?thesis
    by (simp add: filesOfLakehouse_def fullPath_makeFile comp_def)
qed

lemma fullPath_of_lakehouse_file:
  assumes "f \<in> set (filesOfLakehouse E ws lh)"
  shows "\<exists>path. fullPath f = getPath E ws (item_id lh) path"
  using filesOfLakehouse_origin [OF assms] fullPath_makeFile by blast

lemma fullPaths_of_lakehouses:
  assumes inj: "inj_on (\<lambda>(i, path). getPath E ws i path) (S \<times> UNIV)"
    and "item_id ` set lhs \<subseteq> S"
    and "distinct (map item_id lhs)"
    and "\<And>lh md. lh \<in> set lhs \<Longrightarrow> listing E ws lh = Inr md \<Longrightarrow>
       distinct (map p_name (filter (\<lambda>p. \<not> isDirectoryEntry p) (entriesOf md)))
       \<and> (\<forall>p \<in> set (entriesOf md). \<not> isDirectoryEntry p \<longrightarrow> prefix (item_id lh @ ''/'') (p_name p))"
  shows "distinct (map fullPath (concat (map (filesOfLakehouse E ws) lhs)))"
  using assms(2-)
proof (induction lhs)
  case Nil
  show ?case by simp
next
  case (Cons lh rest)
  have one: "distinct (map fullPath (filesOfLakehouse E ws lh))"
    using inj
  proof (rule fullPaths_of_one_lakehouse)
    show "item_id lh \<in> S"
      using Cons.prems(1) by simp
    show "distinct (map p_name (filter (\<lambda>p. \<not> isDirectoryEntry p) (entriesOf md)))
       \<and> (\<forall>p \<in> set (entriesOf md). \<not> isDirectoryEntry p \<longrightarrow> prefix (item_id lh @ ''/'') (p_name p))"
      if "listing E ws lh = Inr md" for md
      using Cons.prems(3) [of lh md] that by simp
  qed
  have others: "distinct (map fullPath (concat (map (filesOfLakehouse E ws) rest)))"
  proof (rule Cons.IH)
    show "item_id ` set rest \<subseteq> S"
      using Cons.prems(1) by simp
    show "distinct (map item_id rest)"
      using Cons.prems(2) by simp
    show "distinct (map p_name (filter (\<lambda>p. \<not> isDirectoryEntry p) (entriesOf md)))
       \<and> (\<forall>p \<in> set (entriesOf md). \<not> isDirectoryEntry p \<longrightarrow> prefix (item_id l @ ''/'') (p_name p))"
      if "l \<in> set rest" and "listing E ws l = Inr md" for l md
      using Cons.prems(3) [of l md] that by simp
  qed
  have apart: "fullPath f \<noteq> fullPath g"
    if f: "f \<in> set (filesOfLakehouse E ws lh)"
      and g: "g \<in> set (concat (map (filesOfLakehouse E ws) rest))" for f g
  proof
    assume eq: "fullPath f = fullPath g"
    from g obtain lh' where lh': "lh' \<in> set rest" "g \<in> set (filesOfLakehouse E ws lh')"
      by auto
    from fullPath_of_lakehouse_file [OF f] obtain a where a: "fullPath f = getPath E ws (item_id lh) a"
      by blast
    from fullPath_of_lakehouse_file [OF lh'(2)] obtain b where b: "fullPath g = getPath E ws (item_id lh') b"
      by blast
    have "item_id lh \<in> S" "item_id lh' \<in> S"
      using Cons.prems(1) lh'(1) by auto
    with getPath_apart [OF inj, of "item_id lh" "item_id lh'" a b] a b eq
    have "item_id lh = item_id lh'"
      by simp
    with lh'(1) Cons.prems(2) show False
      by auto
  qed
  from apart have "set (map fullPath (filesOfLakehouse E ws lh))
      \<inter> set (map fullPath (concat (map (filesOfLakehouse E ws) rest))) = {}"
    by fastforce
  with one others show ?case
    by simp
qed

text \<open>Whatever \<^verbatim>\<open>getPath\<close> is, an entry listed twice gives two records with the same full path.\<close>

lemma repeated_entry_repeats_fullPath:
  assumes "listing E ws lh = Inr md"
    and "\<not> distinct (filter (\<lambda>p. \<not> isDirectoryEntry p) (entriesOf md))"
  shows "\<not> distinct (map fullPath (filesOfLakehouse E ws lh))"
proof
  assume "distinct (map fullPath (filesOfLakehouse E ws lh))"
  then have "distinct (map (\<lambda>p. fullPath (makeFile E ws lh p))
      (filter (\<lambda>p. \<not> isDirectoryEntry p) (entriesOf md)))"
    using assms(1) by (simp add: filesOfLakehouse_def comp_def)
  then have "distinct (filter (\<lambda>p. \<not> isDirectoryEntry p) (entriesOf md))"
    by (simp add: distinct_map)
  with assms(2) show False ..
qed

text \<open>
  A listing that holds the same entry twice gives two records with the same full path: the
  build keeps every entry that is not a directory.
\<close>

theorem fullPath_not_unique_counterexample:
  "map fullPath (files (fst (loadFiles duplicate_env (Some ''item'') initial_state)))
     = [''ws1/B/Files/sub/doc.pdf'', ''ws1/B/Files/sub/doc.pdf'']
   \<and> \<not> distinct (map fullPath (files (fst (loadFiles duplicate_env (Some ''item'') initial_state))))"
proof -
  have r: "clientReady duplicate_env"
    by (simp add: duplicate_env_def example_env_def)
  have w: "resolveWorkspace duplicate_env (Some ''item'') =
     (Inr (Some ''ws1''), [Warn ''Could not resolve workspace from item:''
                             (Obj True [(''message'', PStr ''item not found'')])])"
    by (simp add: resolveWorkspace_def workspaceFromItem_def duplicate_env_def example_env_def)
  have i: "getAllItems duplicate_env ''ws1'' = Inr [lakehouseA, notebookN, lakehouseB]"
    by (simp add: duplicate_env_def example_env_def)
  have ne: "filter isLakehouse [lakehouseA, notebookN, lakehouseB] \<noteq> []"
    unfolding example_lakehouses by simp
  have m: "makeFile duplicate_env ''ws1'' lakehouseB entry_doc = doc_file"
    by (simp add: makeFile_def pathInItem_def relativePathOf_def fileNameOf_def pop_last_def
      startsWith_def substring_from_def lakehouseB_def entry_doc_def doc_file_def
      duplicate_env_def example_env_def)
  have l: "listing duplicate_env ''ws1'' lakehouseA = Inl forbidden"
    "listing duplicate_env ''ws1'' lakehouseB = Inr \<lparr>paths = Some [entry_doc, entry_doc]\<rparr>"
    by (simp_all add: listing_def duplicate_env_def example_env_def lakehouseA_def lakehouseB_def)
  have fs: "concat (map (filesOfLakehouse duplicate_env ''ws1'')
              (filter isLakehouse [lakehouseA, notebookN, lakehouseB])) = [doc_file, doc_file]"
    unfolding example_lakehouses
    by (simp add: filesOfLakehouse_def l entriesOf_def example_isDirectoryEntry m)
  have "loadFiles duplicate_env (Some ''item'') initial_state =
      loadFromWorkspace duplicate_env ''ws1''
        [Warn ''Could not resolve workspace from item:''
           (Obj True [(''message'', PStr ''item not found'')])]
        (initial_state\<lparr>loading := True, error := None\<rparr>)"
    using r w by (rule loadFiles_proceeds) simp
  then have "files (fst (loadFiles duplicate_env (Some ''item'') initial_state)) = [doc_file, doc_file]"
    unfolding loadFromWorkspace_listed [OF i ne] fs by simp
  then show ?thesis
    by (simp add: doc_file_def)
qed

text \<open>
  Claim C7, amended. The build does not remove duplicates; the full paths of the files it
  stores are pairwise different when the lakehouses have different ids, the entries of each
  listing that are not directories have different names that all start with
  \<open>{lakehouse id}/\<close>, and \<^verbatim>\<open>getPath\<close> gives different paths for different pairs of lakehouse
  id and path within the workspace.
\<close>

theorem fullPath_unique_for_distinct_entries:
  assumes "clientReady E"
    and "resolveWorkspace E iid = (Inr (Some ws), lg0)" and "ws \<noteq> []"
    and "getAllItems E ws = Inr items"
    and "distinct (map item_id (filter isLakehouse items))"
    and "\<forall>lh \<in> set (filter isLakehouse items). \<forall>md. listing E ws lh = Inr md \<longrightarrow>
           distinct (map p_name (filter (\<lambda>p. \<not> isDirectoryEntry p) (entriesOf md)))
           \<and> (\<forall>p \<in> set (entriesOf md). \<not> isDirectoryEntry p \<longrightarrow>
                 prefix (item_id lh @ ''/'') (p_name p))"
    and "inj_on (\<lambda>(i, path). getPath E ws i path)
           (item_id ` set (filter isLakehouse items) \<times> UNIV)"
  shows "files (fst (loadFiles E iid st)) =
           concat (map (filesOfLakehouse E ws) (filter isLakehouse items))
         \<and> distinct (map fullPath (files (fst (loadFiles E iid st))))"
proof -
  let ?lhs = "filter isLakehouse items"
  from assms(1-3) have run: "loadFiles E iid st =
      loadFromWorkspace E ws lg0 (st\<lparr>loading := True, error := None\<rparr>)"
    by (rule loadFiles_proceeds)
  have fs: "files (fst (loadFiles E iid st)) = concat (map (filesOfLakehouse E ws) ?lhs)"
  proof (cases "?lhs = []")
    case True
    with run assms(4) show ?thesis
      by (simp add: loadFromWorkspace_no_lakehouses)
  next
    case False
    with run assms(4) show ?thesis
      by (simp add: loadFromWorkspace_listed)
  qed
  have "distinct (map fullPath (concat (map (filesOfLakehouse E ws) ?lhs)))"
    using assms(7)
  proof (rule fullPaths_of_lakehouses)
    show "item_id ` set ?lhs \<subseteq> item_id ` set ?lhs" ..
    show "distinct (map item_id ?lhs)"
      by (rule assms(5))
    show "distinct (map p_name (filter (\<lambda>p. \<not> isDirectoryEntry p) (entriesOf md)))
       \<and> (\<forall>p \<in> set (entriesOf md). \<not> isDirectoryEntry p \<longrightarrow> prefix (item_id l @ ''/'') (p_name p))"
      if "l \<in> set ?lhs" and "listing E ws l = Inr md" for l md
      using assms(6) that by blast
  qed
  with fs show ?thesis
    by simp
qed

text \<open>
  The build where both listings succeed stores three files, two of them from \<open>A\<close> and two
  of them with the relative path \<open>sub/doc.pdf\<close>.
\<close>

lemma multi_listing:
  "listing multi_env ws lakehouseA = Inr \<lparr>paths = Some [entry_a1, entry_a2]\<rparr>"
  "listing multi_env ws lakehouseB = Inr \<lparr>paths = Some [entry_sub, entry_doc]\<rparr>"
  by (simp_all add: listing_def multi_env_def lakehouseA_def lakehouseB_def)

lemma multi_isDirectoryEntry: "\<not> isDirectoryEntry entry_a1" "\<not> isDirectoryEntry entry_a2"
  by (simp_all add: isDirectoryEntry_def entry_a1_def entry_a2_def)

lemma multi_fullPaths:
  "fullPath (makeFile multi_env ''ws1'' lakehouseA entry_a1) = ''ws1/A/Files/a.txt''"
  "fullPath (makeFile multi_env ''ws1'' lakehouseA entry_a2) = ''ws1/A/Files/sub/doc.pdf''"
  "fullPath (makeFile multi_env ''ws1'' lakehouseB entry_doc) = ''ws1/B/Files/sub/doc.pdf''"
  by (simp_all add: fullPath_makeFile pathInItem_def startsWith_def substring_from_def
      lakehouseA_def lakehouseB_def entry_a1_def entry_a2_def entry_doc_def multi_env_def
      example_env_def)

lemma multi_files:
  "concat (map (filesOfLakehouse multi_env ''ws1'')
      (filter isLakehouse [lakehouseA, notebookN, lakehouseB])) =
   [makeFile multi_env ''ws1'' lakehouseA entry_a1,
    makeFile multi_env ''ws1'' lakehouseA entry_a2,
    makeFile multi_env ''ws1'' lakehouseB entry_doc]"
  unfolding example_lakehouses
  by (simp add: filesOfLakehouse_def multi_listing entriesOf_def multi_isDirectoryEntry
      example_isDirectoryEntry)

theorem fullPath_unique_for_distinct_entries_witness:
  "distinct (map item_id (filter isLakehouse [lakehouseA, notebookN, lakehouseB]))
   \<and> listing multi_env ''ws1'' lakehouseA = Inr \<lparr>paths = Some [entry_a1, entry_a2]\<rparr>
   \<and> listing multi_env ''ws1'' lakehouseB = Inr \<lparr>paths = Some [entry_sub, entry_doc]\<rparr>
   \<and> inj_on (\<lambda>(i, path). getPath multi_env ''ws1'' i path)
        (item_id ` set (filter isLakehouse [lakehouseA, notebookN, lakehouseB]) \<times> UNIV)
   \<and> map fullPath (files (fst (loadFiles multi_env (Some ''item'') initial_state))) =
        [''ws1/A/Files/a.txt'', ''ws1/A/Files/sub/doc.pdf'', ''ws1/B/Files/sub/doc.pdf'']
   \<and> map relativePath (files (fst (loadFiles multi_env (Some ''item'') initial_state))) =
        [''a.txt'', ''sub/doc.pdf'', ''sub/doc.pdf'']
   \<and> distinct (map fullPath (files (fst (loadFiles multi_env (Some ''item'') initial_state))))"
proof -
  let ?items = "[lakehouseA, notebookN, lakehouseB]"
  have r: "clientReady multi_env"
    by (simp add: multi_env_def example_env_def)
  have w: "resolveWorkspace multi_env (Some ''item'') =
     (Inr (Some ''ws1''), [Warn ''Could not resolve workspace from item:''
                             (Obj True [(''message'', PStr ''item not found'')])])"
    by (simp add: resolveWorkspace_def workspaceFromItem_def multi_env_def example_env_def)
  have ne: "''ws1'' \<noteq> []"
    by simp
  have i: "getAllItems multi_env ''ws1'' = Inr ?items"
    by (simp add: multi_env_def example_env_def)
  have d: "distinct (map item_id (filter isLakehouse ?items))"
    unfolding example_lakehouses by (simp add: lakehouseA_def lakehouseB_def)
  have n: "\<forall>lh \<in> set (filter isLakehouse ?items). \<forall>md. listing multi_env ''ws1'' lh = Inr md \<longrightarrow>
           distinct (map p_name (filter (\<lambda>p. \<not> isDirectoryEntry p) (entriesOf md)))
           \<and> (\<forall>p \<in> set (entriesOf md). \<not> isDirectoryEntry p \<longrightarrow>
                 prefix (item_id lh @ ''/'') (p_name p))"
  proof (intro ballI allI impI)
    fix lh md
    assume "lh \<in> set (filter isLakehouse ?items)" and l: "listing multi_env ''ws1'' lh = Inr md"
    then have "lh = lakehouseA \<or> lh = lakehouseB"
      unfolding example_lakehouses by simp
    then show "distinct (map p_name (filter (\<lambda>p. \<not> isDirectoryEntry p) (entriesOf md)))
           \<and> (\<forall>p \<in> set (entriesOf md). \<not> isDirectoryEntry p \<longrightarrow>
                 prefix (item_id lh @ ''/'') (p_name p))"
    proof
      assume lh: "lh = lakehouseA"
      with l have md: "md = \<lparr>paths = Some [entry_a1, entry_a2]\<rparr>"
        by (simp add: multi_listing)
      have "filter (\<lambda>p. \<not> isDirectoryEntry p) (entriesOf md) = [entry_a1, entry_a2]"
        by (simp add: md entriesOf_def multi_isDirectoryEntry)
      moreover have "p_name entry_a1 \<noteq> p_name entry_a2"
        by (simp add: entry_a1_def entry_a2_def)
      moreover have "prefix (item_id lh @ ''/'') (p_name entry_a1)"
        "prefix (item_id lh @ ''/'') (p_name entry_a2)"
        by (simp_all add: lh lakehouseA_def entry_a1_def entry_a2_def)
      moreover have "set (entriesOf md) = {entry_a1, entry_a2}"
        by (simp add: md entriesOf_def)
      ultimately show ?thesis
        by simp
    next
      assume lh: "lh = lakehouseB"
      with l have md: "md = \<lparr>paths = Some [entry_sub, entry_doc]\<rparr>"
        by (simp add: multi_listing)
      have "filter (\<lambda>p. \<not> isDirectoryEntry p) (entriesOf md) = [entry_doc]"
        by (simp add: md entriesOf_def example_isDirectoryEntry)
      moreover have "prefix (item_id lh @ ''/'') (p_name entry_doc)"
        by (simp add: lh lakehouseB_def entry_doc_def)
      moreover have "set (entriesOf md) = {entry_sub, entry_doc}"
        by (simp add: md entriesOf_def)
      ultimately show ?thesis
        using example_isDirectoryEntry(1) by simp
    qed
  qed
  have inj: "inj_on (\<lambda>(i, path). getPath multi_env ''ws1'' i path)
        (item_id ` set (filter isLakehouse ?items) \<times> UNIV)"
    unfolding example_lakehouses
    by (auto simp: inj_on_def multi_env_def example_env_def lakehouseA_def lakehouseB_def)
  note t = fullPath_unique_for_distinct_entries [OF r w ne i d n inj, of initial_state]
  from t have fs: "files (fst (loadFiles multi_env (Some ''item'') initial_state)) =
      [makeFile multi_env ''ws1'' lakehouseA entry_a1,
       makeFile multi_env ''ws1'' lakehouseA entry_a2,
       makeFile multi_env ''ws1'' lakehouseB entry_doc]"
    unfolding multi_files by (rule conjunct1)
  from t have dist: "distinct (map fullPath (files (fst (loadFiles multi_env (Some ''item'') initial_state))))"
    by (rule conjunct2)
  have paths: "map fullPath (files (fst (loadFiles multi_env (Some ''item'') initial_state))) =
        [''ws1/A/Files/a.txt'', ''ws1/A/Files/sub/doc.pdf'', ''ws1/B/Files/sub/doc.pdf'']"
    by (simp add: fs multi_fullPaths)
  have rels: "map relativePath (files (fst (loadFiles multi_env (Some ''item'') initial_state))) =
        [''a.txt'', ''sub/doc.pdf'', ''sub/doc.pdf'']"
    by (simp add: fs makeFile_relativePath relativePathOf_def startsWith_def substring_from_def
        lakehouseA_def lakehouseB_def entry_a1_def entry_a2_def entry_doc_def)
  from d multi_listing inj paths rels dist show ?thesis
    by blast
qed

section \<open>Selection and preview: properties\<close>

lemma revokeBlobUrlOf_tracked:
  "tracked w \<Longrightarrow>
   objectURLs (revokeBlobUrlOf (view w) w) = []
   \<and> revoked (revokeBlobUrlOf (view w) w) = revoked w @ previewUrl (view w)
   \<and> view (revokeBlobUrlOf (view w) w) = view w"
  by (auto simp: tracked_def previewUrl_def revokeBlobUrlOf_def revokeObjectURL_def
      split: option.splits)

text \<open>
  A call of \<^verbatim>\<open>selectFile\<close> that starts when the live URLs are exactly the URL of the
  preview: after its first step no URL is live and the URL of the previous preview has been
  revoked once.
\<close>

lemma selectFile_start_tracked:
  assumes "tracked w"
  shows "objectURLs (selectFile_start f w) = []"
    and "revoked (selectFile_start f w) = revoked w @ previewUrl (view w)"
    and "tracked (selectFile_start f w)"
  using revokeBlobUrlOf_tracked [OF assms]
  by (simp_all add: selectFile_start_def setSelectedFile_def tracked_def previewUrl_def)

lemma selectFile_finish_after_start:
  assumes "objectURLs w = []" and "url \<noteq> []"
  shows "tracked (selectFile_finish E f url w)"
    and "length (objectURLs (selectFile_finish E f url w)) \<le> 1"
    and "revoked (selectFile_finish E f url w) = revoked w"
  using assms
  by (auto simp: selectFile_finish_def selectFile_failed_def setSelectedFile_def
      createObjectURL_def tracked_def previewUrl_def Let_def split: sum.splits)

lemma closePreview_tracked:
  assumes "tracked w"
  shows "objectURLs (closePreview w) = []"
    and "revoked (closePreview w) = revoked w @ previewUrl (view w)"
    and "tracked (closePreview w)"
  using revokeBlobUrlOf_tracked [OF assms]
  by (simp_all add: closePreview_def setSelectedFile_def tracked_def previewUrl_def)

text \<open>
  Calls of \<^verbatim>\<open>selectFile\<close> that each run to their end before the next one starts keep at
  most one URL live, at the end of each call and between its two steps.
\<close>

lemma selectFile_sequential:
  assumes "tracked w" and "url \<noteq> []"
  shows "tracked (selectFile E f url w)"
    and "length (objectURLs (selectFile E f url w)) \<le> 1"
    and "clientReady E \<Longrightarrow> revoked (selectFile E f url w) = revoked w @ previewUrl (view w)"
proof -
  have one: "length (objectURLs w) \<le> 1"
    using assms(1)
    by (auto simp: tracked_def previewUrl_def split: option.splits dest: map_eq_imp_length_eq)
  note s = selectFile_start_tracked [OF assms(1), of f]
  note f = selectFile_finish_after_start [OF s(1) assms(2), of E f]
  show "tracked (selectFile E f url w)"
    using assms(1) f(1) by (simp add: selectFile_def)
  show "length (objectURLs (selectFile E f url w)) \<le> 1"
    using one f(2) by (simp add: selectFile_def)
  show "revoked (selectFile E f url w) = revoked w @ previewUrl (view w)" if "clientReady E"
    using that f(3) s(2) by (simp add: selectFile_def)
qed

lemma initial_world_tracked: "tracked initial_world"
  by (simp add: tracked_def previewUrl_def initial_world_def initial_state_def)

lemma example_selectFile:
  "selectFile example_env doc_file ''blob:1'' initial_world = ready_world"
  by (simp add: selectFile_def selectFile_start_def selectFile_finish_def setSelectedFile_def
      revokeBlobUrlOf_def createObjectURL_def initial_world_def initial_state_def ready_world_def
      example_env_def doc_file_def getMimeType_def MIME_TYPES_def getFileExtension_def
      pop_last_def toLowerCase_def lower_char_def)

text \<open>The cleanup reads the initial state, whatever the state is at the time of the unmount.\<close>

lemma unmount_revokes_nothing: "unmount w = w"
  by (simp add: unmount_def cleanupBlobUrl_def revokeBlobUrlOf_def initial_state_def)

text \<open>The same function, given the state at the time of the unmount, revokes the URL once.\<close>

lemma cleanupBlobUrl_current:
  "tracked w \<Longrightarrow> revoked (cleanupBlobUrl (view w) w) = revoked w @ previewUrl (view w)
                \<and> objectURLs (cleanupBlobUrl (view w) w) = []"
  using revokeBlobUrlOf_tracked [of w] by (simp add: cleanupBlobUrl_def)

text \<open>
  Claim C1. Unmounting while the preview is ready is to release its object URL exactly
  once; unmounting while it is loading or absent is to release nothing. The second part
  holds, since an unmount never releases anything. The first fails: the state \<open>ready_world\<close>
  is what a completed \<^verbatim>\<open>selectFile\<close> of \<open>doc_file\<close> leaves, its selected file holds the URL
  \<open>blob:1\<close>, and the unmount calls \<^verbatim>\<open>revokeObjectURL\<close> not once but never: the URL stays
  live.
\<close>

theorem unmount_ready_preview_not_released:
  "selectFile example_env doc_file ''blob:1'' initial_world = ready_world
   \<and> previewUrl (view ready_world) = [''blob:1'']
   \<and> revoked (unmount ready_world) = []
   \<and> map fst (objectURLs (unmount ready_world)) = [''blob:1'']"
  by (simp add: example_selectFile unmount_revokes_nothing)
     (simp add: ready_world_def previewUrl_def)

text \<open>
  Claim C2. After two calls of \<^verbatim>\<open>selectFile\<close> in a row at most one object URL is to be
  live at any time, the URL of the first file being revoked no later than the URL of the
  second is stored. This holds when the first call has ended before the second starts
  (\<open>selectFile_sequential\<close>). It fails for the calls for \<open>doc_file\<close> and then \<open>logo_file\<close>
  where the second starts while the first is waiting for its content: when both have
  finished, the URLs of both files are live and none has been revoked.
\<close>

theorem overlapping_selects_leave_two_urls:
  "map fst (objectURLs (run example_env
       [SelectStart doc_file, SelectStart logo_file,
        SelectFinish doc_file ''blob:1'', SelectFinish logo_file ''blob:2''] initial_world))
     = [''blob:1'', ''blob:2'']
   \<and> revoked (run example_env
       [SelectStart doc_file, SelectStart logo_file,
        SelectFinish doc_file ''blob:1'', SelectFinish logo_file ''blob:2''] initial_world) = []
   \<and> previewUrl (view (run example_env
       [SelectStart doc_file, SelectStart logo_file,
        SelectFinish doc_file ''blob:1'', SelectFinish logo_file ''blob:2''] initial_world))
     = [''blob:2'']"
  by (simp add: selectFile_start_def selectFile_finish_def setSelectedFile_def
      revokeBlobUrlOf_def createObjectURL_def initial_world_def initial_state_def
      example_env_def previewUrl_def Let_def)

end
